theory Spec2Isabelle
  imports
    Main
    "HOL-Library.Word"
    "HOL-Library.Char_ord"
    "HOL-Library.List_Lexorder"
    "HOL-Library.Sublist"
    "HOL-Library.AList"
begin

section \<open>Go library functions used by the package\<close>

text \<open>
  Go strings are byte sequences; they are modelled as \<^typ>\<open>string\<close> (a list of 8-bit
  characters), so \<open>length\<close> is Go's \<open>len\<close>. Go's \<open>int\<close> and \<open>int64\<close> are 64-bit
  two's-complement integers (a 64-bit platform is assumed), modelled as \<^typ>\<open>64 word\<close>.
\<close>

subsection \<open>strings.EqualFold, strings.Split, strings.Join, strings.SplitN, strings.Index\<close>

definition lower :: "char \<Rightarrow> char" where
  "lower c = (if CHR ''A'' \<le> c \<and> c \<le> CHR ''Z'' then char_of (of_char c + (32::nat)) else c)"

text \<open>
  \<open>strings.EqualFold\<close> compares under Unicode simple case folding. The package calls it
  with the literal \<open>"true"\<close> only; the letters t, r, u, e fold with their ASCII capitals alone,
  so on that operand simple folding is ASCII folding, which is what is modelled.
\<close>

definition EqualFold :: "string \<Rightarrow> string \<Rightarrow> bool" where
  "EqualFold s t = (map lower s = map lower t)"

text \<open>\<open>strings.Split(s, sep)\<close> for a one-byte separator: never empty, \<open>[s]\<close> without separator.\<close>

fun Split :: "string \<Rightarrow> char \<Rightarrow> string list" where
  "Split [] sep = [[]]"
| "Split (c # cs) sep =
     (if c = sep then [] # Split cs sep
      else (case Split cs sep of x # xs \<Rightarrow> (c # x) # xs | [] \<Rightarrow> [[c]]))"

text \<open>\<open>strings.Join(elems, sep)\<close> for a one-byte separator.\<close>

fun Join :: "string list \<Rightarrow> char \<Rightarrow> string" where
  "Join [] sep = []"
| "Join [e] sep = e"
| "Join (e # es) sep = e @ sep # Join es sep"

text \<open>\<open>strings.SplitN(s, sep, 2)\<close> for a one-byte separator: cut at the first separator.\<close>

definition SplitN2 :: "string \<Rightarrow> char \<Rightarrow> string list" where
  "SplitN2 s sep =
     (if sep \<in> set s then [takeWhile (\<lambda>c. c \<noteq> sep) s, tl (dropWhile (\<lambda>c. c \<noteq> sep) s)]
      else [s])"

text \<open>\<open>strings.Index(s, sep)\<close> for a one-byte separator: first position, or -1.\<close>

definition Index :: "string \<Rightarrow> char \<Rightarrow> int" where
  "Index s sep = (if sep \<in> set s then int (length (takeWhile (\<lambda>c. c \<noteq> sep) s)) else - 1)"

subsection \<open>strings.TrimSpace\<close>

text \<open>
  The white space of \<open>unicode.IsSpace\<close>, each code point in its UTF-8 encoding: the six
  ASCII characters, U+0085, U+00A0, U+1680, U+2000 to U+200A, U+2028, U+2029, U+202F,
  U+205F and U+3000.
\<close>

definition space_runes :: "string list" where
  "space_runes =
     [[CHR 0x09], [CHR 0x0A], [CHR 0x0B], [CHR 0x0C], [CHR 0x0D], [CHR 0x20],
      [CHR 0xC2, CHR 0x85], [CHR 0xC2, CHR 0xA0], [CHR 0xE1, CHR 0x9A, CHR 0x80],
      [CHR 0xE2, CHR 0x80, CHR 0x80], [CHR 0xE2, CHR 0x80, CHR 0x81],
      [CHR 0xE2, CHR 0x80, CHR 0x82], [CHR 0xE2, CHR 0x80, CHR 0x83],
      [CHR 0xE2, CHR 0x80, CHR 0x84], [CHR 0xE2, CHR 0x80, CHR 0x85],
      [CHR 0xE2, CHR 0x80, CHR 0x86], [CHR 0xE2, CHR 0x80, CHR 0x87],
      [CHR 0xE2, CHR 0x80, CHR 0x88], [CHR 0xE2, CHR 0x80, CHR 0x89],
      [CHR 0xE2, CHR 0x80, CHR 0x8A], [CHR 0xE2, CHR 0x80, CHR 0xA8],
      [CHR 0xE2, CHR 0x80, CHR 0xA9], [CHR 0xE2, CHR 0x80, CHR 0xAF],
      [CHR 0xE2, CHR 0x81, CHR 0x9F], [CHR 0xE3, CHR 0x80, CHR 0x80]]"

text \<open>Remove leading occurrences of the given byte sequences, as long as one is a prefix.\<close>

function trim_prefix :: "string list \<Rightarrow> string \<Rightarrow> string" where
  "trim_prefix rs s =
     (case find (\<lambda>r. r \<noteq> [] \<and> take (length r) s = r) rs of
        None \<Rightarrow> s
      | Some r \<Rightarrow> trim_prefix rs (drop (length r) s))"
  by pat_completeness auto
termination
proof (relation "measure (\<lambda>(rs, s). length s)")
  show "wf (measure (\<lambda>(rs, s). length s))" by simp
next
  fix rs :: "string list" and s r :: string
  assume "find (\<lambda>r. r \<noteq> [] \<and> take (length r) s = r) rs = Some r"
  then have r: "r \<noteq> []" "take (length r) s = r"
    by (auto simp: find_Some_iff)
  then have "s \<noteq> []" by auto
  with r show "((rs, drop (length r) s), (rs, s)) \<in> measure (\<lambda>(rs, s). length s)"
    by (cases r) auto
qed

declare trim_prefix.simps [simp del]

text \<open>
  \<open>strings.TrimSpace\<close>: leading white space is removed rune by rune from the front,
  trailing white space rune by rune from the back.
\<close>

definition TrimSpace :: "string \<Rightarrow> string" where
  "TrimSpace s = rev (trim_prefix (map rev space_runes) (rev (trim_prefix space_runes s)))"

subsection \<open>fmt's \<open>%d\<close>\<close>

fun digits :: "nat \<Rightarrow> string" where
  "digits n =
     (if n < 10 then [char_of (48 + n)]
      else digits (n div 10) @ [char_of (48 + n mod 10)])"

declare digits.simps [simp del]

definition Itoa :: "int \<Rightarrow> string" where
  "Itoa i = (if i < 0 then CHR ''-'' # digits (nat (- i)) else digits (nat i))"

subsection \<open>path.Clean, path.Join\<close>

text \<open>
  \<open>path.Clean\<close> on the components between slashes: empty and \<open>.\<close> components are
  dropped, \<open>..\<close> removes the component before it, is dropped at the root and is kept
  at the front of a relative path. \<open>st\<close> is the output so far, last component first.
\<close>

fun clean_elems :: "bool \<Rightarrow> string list \<Rightarrow> string list \<Rightarrow> string list" where
  "clean_elems rooted st [] = rev st"
| "clean_elems rooted st (e # es) =
     (if e = [] \<or> e = ''.'' then clean_elems rooted st es
      else if e = ''..'' then
        (case st of
           t # ts \<Rightarrow>
             (if t \<noteq> ''..'' then clean_elems rooted ts es else clean_elems rooted (e # st) es)
         | [] \<Rightarrow> (if rooted then clean_elems rooted [] es else clean_elems rooted [e] es))
      else clean_elems rooted (e # st) es)"


definition path_Clean :: "string \<Rightarrow> string" where
  "path_Clean p =
     (if p = [] then ''.''
      else
        (let rooted = (hd p = CHR ''/'');
             body = Join (clean_elems rooted [] (Split p CHR ''/'')) CHR ''/''
         in if rooted then CHR ''/'' # body else if body = [] then ''.'' else body))"

definition path_Join :: "string list \<Rightarrow> string" where
  "path_Join elem =
     (if concat elem = [] then []
      else path_Clean (Join (filter (\<lambda>e. e \<noteq> []) elem) CHR ''/''))"

subsection \<open>bufio.Scanner with the default split function (ScanLines)\<close>

text \<open>The pieces between newlines; nothing follows a final newline.\<close>

fun raw_lines :: "string \<Rightarrow> string list" where
  "raw_lines [] = []"
| "raw_lines (c # cs) =
     (if c = CHR 0x0A then [] # raw_lines cs
      else (case raw_lines cs of l # ls \<Rightarrow> (c # l) # ls | [] \<Rightarrow> [[c]]))"

definition dropCR :: "string \<Rightarrow> string" where
  "dropCR l = (if l \<noteq> [] \<and> last l = CHR 0x0D then butlast l else l)"

text \<open>
  \<open>Scan\<close> gives up (\<open>ErrTooLong\<close>) at the first line that does not fit the buffer of
  \<open>64 * 1024\<close> bytes; the lines before it have been delivered.
\<close>

definition ScanLines :: "string \<Rightarrow> string list" where
  "ScanLines data = map dropCR (takeWhile (\<lambda>l. length l < 65536) (raw_lines data))"

subsection \<open>strconv.ParseUint, strconv.ParseInt, strconv.Atoi (base 10, 64 bits)\<close>

datatype num_error = ErrSyntax | ErrRange

definition maxUint64 :: "64 word" where
  "maxUint64 = 18446744073709551615"

text \<open>
  The digit loop of \<open>ParseUint\<close>: \<open>n\<close> is a \<open>uint64\<close>, so the multiplication and the
  addition wrap modulo \<open>2 ^ 64\<close> and the comparisons are unsigned, as in Go.
\<close>

fun ParseUint_loop :: "64 word \<Rightarrow> string \<Rightarrow> num_error + 64 word" where
  "ParseUint_loop n [] = Inr n"
| "ParseUint_loop n (c # cs) =
     (if \<not> (CHR ''0'' \<le> c \<and> c \<le> CHR ''9'') then Inl ErrSyntax
      else if n \<ge> maxUint64 div 10 + 1 then Inl ErrRange
      else
        (let n10 = n * 10;
             n1 = n10 + (of_char c - 48)
         in if n1 < n10 \<or> n1 > maxUint64 then Inl ErrRange else ParseUint_loop n1 cs))"

definition ParseUint :: "string \<Rightarrow> num_error + 64 word" where
  "ParseUint s = (if s = [] then Inl ErrSyntax else ParseUint_loop 0 s)"

text \<open>
  \<open>strconv.ParseInt(s, 10, 64)\<close>: an optional sign, then \<open>ParseUint\<close>; a range error of
  \<open>ParseUint\<close> carries the maximal value on, a syntax error returns at once. The result
  is \<open>int64(un)\<close>, negated after a minus sign.
\<close>

definition ParseInt :: "string \<Rightarrow> num_error + 64 word" where
  "ParseInt s =
     (if s = [] then Inl ErrSyntax
      else
        (let neg = (hd s = CHR ''-'');
             s1 = (if hd s = CHR ''+'' \<or> hd s = CHR ''-'' then tl s else s)
         in case ParseUint s1 of
              Inl ErrSyntax \<Rightarrow> Inl ErrSyntax
            | r \<Rightarrow>
                (let un = (case r of Inr n \<Rightarrow> n | Inl _ \<Rightarrow> maxUint64)
                 in if \<not> neg \<and> un \<ge> 2 ^ 63 then Inl ErrRange
                    else if neg \<and> un > 2 ^ 63 then Inl ErrRange
                    else Inr (if neg then - un else un))))"

text \<open>\<open>strconv.Atoi(s)\<close> is \<open>ParseInt(s, 10, 0)\<close> converted to \<open>int\<close>.\<close>

definition Atoi :: "string \<Rightarrow> num_error + 64 word" where
  "Atoi s = ParseInt s"

subsection \<open>What a base-10 numeral denotes\<close>

text \<open>
  The specification the parser is checked against (no code of the package or of the
  library): a numeral is an optional sign and then one or more decimal digits, it denotes
  the integer its digits spell, and it is a 64-bit integer when that lies between
  \<open>- 2 ^ 63\<close> and \<open>2 ^ 63 - 1\<close>.
\<close>

definition is_digit :: "char \<Rightarrow> bool" where
  "is_digit c = (CHR ''0'' \<le> c \<and> c \<le> CHR ''9'')"

definition dec_step :: "nat \<Rightarrow> char \<Rightarrow> nat" where
  "dec_step a c = a * 10 + (of_char c - 48)"

definition decimal_value :: "string \<Rightarrow> int option" where
  "decimal_value s =
     (let neg = (s \<noteq> [] \<and> hd s = CHR ''-'');
          ds = (if s \<noteq> [] \<and> (hd s = CHR ''+'' \<or> hd s = CHR ''-'') then tl s else s)
      in if ds = [] \<or> \<not> list_all is_digit ds then None
         else Some (if neg then - int (foldl dec_step 0 ds) else int (foldl dec_step 0 ds)))"

definition int64_value :: "string \<Rightarrow> int option" where
  "int64_value s =
     (case decimal_value s of
        Some v \<Rightarrow> (if - (2 ^ 63) \<le> v \<and> v < 2 ^ 63 then Some v else None)
      | None \<Rightarrow> None)"

section \<open>The default registry (defaults.go)\<close>

text \<open>
  The file is modelled in its version with string-list defaults (\<open>StringSliceType\<close>),
  the one \<open>GetStringSlice\<close> belongs to.
\<close>

text \<open>
  A value of Go's \<open>interface{}\<close>, by dynamic type. \<open>[]string\<close> may be the nil slice
  (\<open>None\<close>); a \<open>float64\<close> is carried as its IEEE-754 bit pattern, a \<open>time.Duration\<close> as its
  \<open>int64\<close> count of nanoseconds. \<open>VNil\<close> is the nil interface; \<open>VOther\<close> stands for a
  value of any further dynamic type, labelled with the name of that type.
\<close>

datatype gvalue =
    VString string
  | VStringSlice "string list option"
  | VInt "64 word"
  | VFloat64 "64 word"
  | VBool bool
  | VDuration "64 word"
  | VInt64 "64 word"
  | VNil
  | VOther string

text \<open>The runtime kind of a value: what a type switch can tell apart.\<close>

datatype kind = KString | KStringList | KInt | KInt64 | KFloat | KBool | KDuration | KNil | KOther

fun kind_of :: "gvalue \<Rightarrow> kind" where
  "kind_of (VString _) = KString"
| "kind_of (VStringSlice _) = KStringList"
| "kind_of (VInt _) = KInt"
| "kind_of (VFloat64 _) = KFloat"
| "kind_of (VBool _) = KBool"
| "kind_of (VDuration _) = KDuration"
| "kind_of (VInt64 _) = KInt64"
| "kind_of VNil = KNil"
| "kind_of (VOther _) = KOther"

definition StringType :: int where "StringType = 0"
definition StringSliceType :: int where "StringSliceType = 1"
definition IntType :: int where "IntType = 2"
definition Float64Type :: int where "Float64Type = 3"
definition BoolType :: int where "BoolType = 4"
definition DurationType :: int where "DurationType = 5"

record descriptor =
  Var :: string
  DataType :: int
  DefaultValue :: gvalue
  Description :: string

text \<open>
  The package variable \<open>registered\<close>, a Go map from key to descriptor, as an association
  list with one entry per key; the order of the entries is the (arbitrary) iteration order.
\<close>

type_synonym registry = "(string \<times> descriptor) list"

datatype panic = InvalidType | SliceBounds

text \<open>
  \<open>Register\<close>: the type switch chooses the tag or panics; the map is written after the
  switch only. The result is the panic, if any, and the registry afterwards.
\<close>

definition Register :: "registry \<Rightarrow> string \<Rightarrow> gvalue \<Rightarrow> string \<Rightarrow> panic option \<times> registry" where
  "Register registered key defaultValue description =
     (case (case defaultValue of
              VString _ \<Rightarrow> Some StringType
            | VStringSlice _ \<Rightarrow> Some StringSliceType
            | VInt _ \<Rightarrow> Some IntType
            | VFloat64 _ \<Rightarrow> Some Float64Type
            | VBool _ \<Rightarrow> Some BoolType
            | VDuration _ \<Rightarrow> Some DurationType
            | _ \<Rightarrow> None) of
        None \<Rightarrow> (Some InvalidType, registered)
      | Some dataType \<Rightarrow>
          (None,
           AList.update key
             \<lparr>Var = key, DataType = dataType, DefaultValue = defaultValue,
              Description = description\<rparr>
             registered))"

text \<open>\<open>Default\<close>: the descriptor and \<open>present\<close>, as an option.\<close>

definition Default :: "registry \<Rightarrow> string \<Rightarrow> descriptor option" where
  "Default registered key = map_of registered key"

section \<open>Typed accessors (dotenv.go)\<close>

text \<open>The process environment: \<open>os.LookupEnv\<close> is application of the map.\<close>

type_synonym env = "string \<rightharpoonup> string"

text \<open>
  Each accessor is two \<open>if\<close> blocks with early returns and a final zero value; the inner
  \<open>case\<close> yields \<open>Some\<close> where the Go block returns and \<open>None\<close> where it falls through.
\<close>

definition GetStringSlice :: "registry \<Rightarrow> env \<Rightarrow> string \<Rightarrow> string list option" where
  "GetStringSlice registered environ key =
     (case environ key of
        Some val \<Rightarrow> Some (Split val CHR '','')
      | None \<Rightarrow>
          (case Default registered key of
             Some d \<Rightarrow> (case DefaultValue d of VStringSlice defaultValue \<Rightarrow> defaultValue | _ \<Rightarrow> None)
           | None \<Rightarrow> None))"

definition GetInt :: "registry \<Rightarrow> env \<Rightarrow> string \<Rightarrow> 64 word" where
  "GetInt registered environ key =
     (case (case environ key of
              Some val \<Rightarrow> (case Atoi val of Inr ival \<Rightarrow> Some ival | Inl _ \<Rightarrow> None)
            | None \<Rightarrow> None) of
        Some ival \<Rightarrow> ival
      | None \<Rightarrow>
          (case (case Default registered key of
                   Some d \<Rightarrow> (case DefaultValue d of VInt defaultValue \<Rightarrow> Some defaultValue | _ \<Rightarrow> None)
                 | None \<Rightarrow> None) of
             Some defaultValue \<Rightarrow> defaultValue
           | None \<Rightarrow> 0))"

definition GetInt64 :: "registry \<Rightarrow> env \<Rightarrow> string \<Rightarrow> 64 word" where
  "GetInt64 registered environ key =
     (case (case environ key of
              Some val \<Rightarrow> (case ParseInt val of Inr ival \<Rightarrow> Some ival | Inl _ \<Rightarrow> None)
            | None \<Rightarrow> None) of
        Some ival \<Rightarrow> ival
      | None \<Rightarrow>
          (case Default registered key of
             Some d \<Rightarrow>
               (case DefaultValue d of
                  VInt defaultValue \<Rightarrow> defaultValue
                | VInt64 defaultValue \<Rightarrow> defaultValue
                | _ \<Rightarrow> 0)
           | None \<Rightarrow> 0))"

definition GetBool :: "registry \<Rightarrow> env \<Rightarrow> string \<Rightarrow> bool" where
  "GetBool registered environ key =
     (case (case environ key of
              Some val \<Rightarrow> (if EqualFold val ''true'' then Some True else None)
            | None \<Rightarrow> None) of
        Some b \<Rightarrow> b
      | None \<Rightarrow>
          (case (case Default registered key of
                   Some d \<Rightarrow> (case DefaultValue d of VBool defaultValue \<Rightarrow> Some defaultValue | _ \<Rightarrow> None)
                 | None \<Rightarrow> None) of
             Some defaultValue \<Rightarrow> defaultValue
           | None \<Rightarrow> False))"

section \<open>Loading the .env files (dotenv.go)\<close>

subsection \<open>The host: environment and file system\<close>

text \<open>
  \<open>os.Setenv\<close> refuses (\<open>EINVAL\<close>) an empty key, a key with \<open>=\<close> or a NUL byte and a
  value with a NUL byte; otherwise it overwrites the variable.
\<close>

definition Setenv :: "env \<Rightarrow> string \<Rightarrow> string \<Rightarrow> env option" where
  "Setenv environ key val =
     (if key = [] then None
      else if \<exists>c \<in> set key. c = CHR ''='' \<or> c = CHR 0x00 then None
      else if CHR 0x00 \<in> set val then None
      else Some (environ(key \<mapsto> val)))"

text \<open>\<open>os.UserHomeDir\<close> on Unix: the value of \<open>HOME\<close>, an error when unset or empty.\<close>

definition UserHomeDir :: "env \<Rightarrow> string option" where
  "UserHomeDir environ =
     (case environ ''HOME'' of
        Some v \<Rightarrow> (if v \<noteq> [] then Some v else None)
      | None \<Rightarrow> None)"

text \<open>
  What a path names: a directory, a file that cannot be opened (with the system's reason),
  or a readable file with its bytes. The file system maps the paths that name something.
\<close>

datatype node = Dir | Unreadable string | Regular string

type_synonym fs = "string \<rightharpoonup> node"

text \<open>
  The errors of the package: the two sentinels of \<open>Load\<close>, the formatted errors of
  \<open>process\<close> (\<open>fmt.Errorf\<close>, by message) and the \<open>*PathError\<close> of \<open>os.Open\<close>.
\<close>

datatype error = ErrBadUserFile | ErrBadLocalFile | Errorf string | PathError string string

text \<open>The method \<open>Error()\<close>: the message of an error.\<close>

fun error_text :: "error \<Rightarrow> string" where
  "error_text ErrBadUserFile = ''unable to parse $HOME/.env file''"
| "error_text ErrBadLocalFile = ''unable to parse .env file''"
| "error_text (Errorf msg) = msg"
| "error_text (PathError path reason) = ''open '' @ path @ '': '' @ reason"

definition exists_file :: "fs \<Rightarrow> string \<Rightarrow> bool" where
  "exists_file files filename =
     (case files filename of
        Some info \<Rightarrow> (if info = Dir then False else True)
      | None \<Rightarrow> False)"

subsection \<open>process\<close>

text \<open>
  One pass through the body of the scanning loop, for the line \<open>line0\<close> with the already
  incremented \<open>lineNo\<close>: \<open>Inl\<close> is the \<open>return\<close> of an error, \<open>Inr\<close> the environment with
  which the loop goes on (after \<open>continue\<close> or at the end of the body).
\<close>

definition process_line :: "string \<Rightarrow> int \<Rightarrow> env \<Rightarrow> string \<Rightarrow> error + env" where
  "process_line filename lineNo environ line0 =
     (let commentIdx = Index line0 CHR ''#'' in
      if commentIdx = 0 then Inr environ
      else
        (let line = (if commentIdx \<noteq> - 1 then take (nat commentIdx) line0 else line0) in
         if TrimSpace line = [] then Inr environ
         else
           (let parts = SplitN2 line CHR ''='' in
            if length parts \<noteq> 2 then
              Inl (Errorf (''unable to parse line '' @ filename @ '':'' @ Itoa lineNo))
            else
              (let key = TrimSpace (parts ! 0);
                   val = TrimSpace (parts ! 1)
               in if key = [] \<or> val = [] then
                    Inl (Errorf (''invalid environment variable assignment '' @ filename @ '':''
                                 @ Itoa lineNo))
                  else
                    (case Setenv environ key val of
                       None \<Rightarrow>
                         Inl (Errorf (''failed to assign '' @ key @ '' value '' @ val @ '' (''
                                      @ filename @ '':'' @ Itoa lineNo @ '')''))
                     | Some environ' \<Rightarrow> Inr environ')))))"

text \<open>The loop \<open>for s.Scan()\<close> over the lines the scanner delivers.\<close>

fun process_loop :: "string \<Rightarrow> int \<Rightarrow> env \<Rightarrow> string list \<Rightarrow> error option \<times> env" where
  "process_loop filename lineNo environ [] = (None, environ)"
| "process_loop filename lineNo environ (line # rest) =
     (case process_line filename (lineNo + 1) environ line of
        Inl err \<Rightarrow> (Some err, environ)
      | Inr environ' \<Rightarrow> process_loop filename (lineNo + 1) environ' rest)"

text \<open>
  \<open>process\<close>: the error of \<open>os.Open\<close>, or the loop from \<open>lineNo = -1\<close>. A directory can be
  opened, its first read fails and the scanner delivers nothing; \<open>s.Err()\<close> is never looked at.
\<close>

definition process :: "fs \<Rightarrow> env \<Rightarrow> string \<Rightarrow> error option \<times> env" where
  "process files environ filename =
     (case files filename of
        None \<Rightarrow> (Some (PathError filename ''no such file or directory''), environ)
      | Some (Unreadable reason) \<Rightarrow> (Some (PathError filename reason), environ)
      | Some Dir \<Rightarrow> (None, environ)
      | Some (Regular data) \<Rightarrow> process_loop filename (- 1) environ (ScanLines data))"

subsection \<open>Load\<close>

text \<open>
  The first \<open>if\<close> block of \<open>Load\<close> (the home file): the sentinel it returns, if any, and
  the environment afterwards.
\<close>

definition Load_user :: "fs \<Rightarrow> env \<Rightarrow> error option \<times> env" where
  "Load_user files environ =
     (case UserHomeDir environ of
        Some home \<Rightarrow>
          (let userEnv = path_Join [path_Clean home, ''.env''] in
           if exists_file files userEnv then
             (case process files environ userEnv of
                (Some err, environ1) \<Rightarrow> (Some ErrBadUserFile, environ1)
              | (None, environ1) \<Rightarrow> (None, environ1))
           else (None, environ))
      | None \<Rightarrow> (None, environ))"

definition Load :: "fs \<Rightarrow> env \<Rightarrow> error option \<times> env" where
  "Load files environ =
     (case Load_user files environ of
        (Some err, environ1) \<Rightarrow> (Some err, environ1)
      | (None, environ1) \<Rightarrow>
          (let localEnv = ''.env'' in
           if exists_file files localEnv then
             (case process files environ1 localEnv of
                (Some err, environ2) \<Rightarrow> (Some ErrBadLocalFile, environ2)
              | (None, environ2) \<Rightarrow> (None, environ2))
           else (None, environ1)))"

text \<open>
  The paths \<open>Load\<close> hands to the file system: the home file when the home directory is
  known, then the local file.
\<close>

definition Load_paths :: "env \<Rightarrow> string list" where
  "Load_paths environ =
     (case UserHomeDir environ of
        Some home \<Rightarrow> [path_Join [path_Clean home, ''.env'']]
      | None \<Rightarrow> [])
     @ [''.env'']"

section \<open>The help printer (defaults.go)\<close>

definition typeNames :: "int \<Rightarrow> string" where
  "typeNames t =
     (if t = StringType then ''string''
      else if t = StringSliceType then ''[]string''
      else if t = IntType then ''integer''
      else if t = Float64Type then ''float''
      else if t = BoolType then ''boolean''
      else if t = DurationType then ''duration''
      else [])"

text \<open>
  \<open>pad\<close>: the slice \<open>val[:width-3]\<close> panics when its bound is negative or beyond the
  string; \<open>strings.Repeat\<close> is reached with a count that is not negative.
\<close>

definition pad :: "string \<Rightarrow> int \<Rightarrow> panic + string" where
  "pad val width =
     (if int (length val) > width then
        (if width - 3 < 0 \<or> width - 3 > int (length val) then Inl SliceBounds
         else Inr (take (nat (width - 3)) val @ ''...''))
      else Inr (val @ replicate (nat (width - int (length val))) CHR '' ''))"

text \<open>
  The first loop of \<open>Help\<close>, over the entries of the map: the keys and the three maxima.
  \<open>sprint\<close> is \<open>fmt.Sprintf("%v", \<cdot>)\<close>, a parameter of the model.
\<close>

fun Help_widths ::
  "(gvalue \<Rightarrow> string) \<Rightarrow> registry \<Rightarrow> string list \<times> int \<times> int \<times> int \<Rightarrow> string list \<times> int \<times> int \<times> int"
where
  "Help_widths sprint [] acc = acc"
| "Help_widths sprint ((key, d) # rest) (keys, width, descWidth, defvalWidth) =
     Help_widths sprint rest
       (keys @ [key],
        (if int (length key) > width then int (length key) else width),
        (if int (length (Description d)) > descWidth then int (length (Description d))
         else descWidth),
        (let w = int (length (sprint (DefaultValue d)))
         in if w > defvalWidth then w else defvalWidth))"

text \<open>The zero descriptor, which a Go map gives for a missing key.\<close>

definition zero_descriptor :: descriptor where
  "zero_descriptor = \<lparr>Var = [], DataType = 0, DefaultValue = VNil, Description = []\<rparr>"

text \<open>
  The second loop: one row per key onto standard output \<open>out\<close> (colours left out), until a
  \<open>pad\<close> panics. The result is the panic, if any, and what has been printed.
\<close>

fun Help_rows ::
  "(gvalue \<Rightarrow> string) \<Rightarrow> registry \<Rightarrow> int \<Rightarrow> int \<Rightarrow> int \<Rightarrow> string list \<Rightarrow> string \<Rightarrow> panic option \<times> string"
where
  "Help_rows sprint registered width descWidth defvalWidth [] out = (None, out)"
| "Help_rows sprint registered width descWidth defvalWidth (key # keys) out =
     (let d = (case map_of registered key of Some d \<Rightarrow> d | None \<Rightarrow> zero_descriptor) in
      case pad key width of
        Inl p \<Rightarrow> (Some p, out)
      | Inr c1 \<Rightarrow>
          (case pad (typeNames (DataType d)) 12 of
             Inl p \<Rightarrow> (Some p, out @ c1 @ ''  '')
           | Inr c2 \<Rightarrow>
               (case pad (Description d) descWidth of
                  Inl p \<Rightarrow> (Some p, out @ c1 @ ''  '' @ c2 @ ''  '')
                | Inr c3 \<Rightarrow>
                    (case pad (sprint (DefaultValue d)) defvalWidth of
                       Inl p \<Rightarrow> (Some p, out @ c1 @ ''  '' @ c2 @ ''  '' @ c3 @ ''  '')
                     | Inr c4 \<Rightarrow>
                         Help_rows sprint registered width descWidth defvalWidth keys
                           (out @ c1 @ ''  '' @ c2 @ ''  '' @ c3 @ ''  '' @ c4 @ [CHR 0x0A])))))"

text \<open>
  \<open>Help\<close>: \<open>termSize\<close> is the width \<open>terminal.GetSize(0)\<close> reports, \<open>None\<close> when it
  fails. \<open>sort.Strings\<close> orders the keys bytewise.
\<close>

definition Help :: "(gvalue \<Rightarrow> string) \<Rightarrow> int option \<Rightarrow> registry \<Rightarrow> panic option \<times> string" where
  "Help sprint termSize registered =
     (case Help_widths sprint registered ([], 0, 0, 0) of
        (keys, width, descWidth0, defvalWidth0) \<Rightarrow>
          (let termWidth = (case termSize of Some w \<Rightarrow> w | None \<Rightarrow> 80);
               over = (width + descWidth0 + defvalWidth0 + 18 > termWidth);
               defvalWidth = (if over \<and> defvalWidth0 > 20 then 20 else defvalWidth0);
               descWidth = (if over then termWidth - width - defvalWidth - 18 else descWidth0)
           in Help_rows sprint registered width descWidth defvalWidth (sort keys) []))"

text \<open>
  A row of the table as it is printed when no column has to be cut: each field followed by
  blanks up to the width of its column.
\<close>

definition fill :: "string \<Rightarrow> int \<Rightarrow> string" where
  "fill val width = val @ replicate (nat (width - int (length val))) CHR '' ''"

definition Help_row ::
  "(gvalue \<Rightarrow> string) \<Rightarrow> registry \<Rightarrow> int \<Rightarrow> int \<Rightarrow> int \<Rightarrow> string \<Rightarrow> string" where
  "Help_row sprint registered width descWidth defvalWidth key =
     (let d = (case map_of registered key of Some d \<Rightarrow> d | None \<Rightarrow> zero_descriptor)
      in fill key width @ ''  '' @ fill (typeNames (DataType d)) 12 @ ''  ''
         @ fill (Description d) descWidth @ ''  ''
         @ fill (sprint (DefaultValue d)) defvalWidth @ [CHR 0x0A])"

section \<open>Properties\<close>

subsection \<open>Splitting and joining\<close>

lemma Split_not_Nil: "Split s sep \<noteq> []"
  by (induction s) (auto split: list.splits)

lemma Join_Split: "Join (Split s sep) sep = s"
proof (induction s)
  case Nil
  show ?case by simp
next
  case (Cons c cs)
  obtain x xs where sp: "Split cs sep = x # xs"
    using Split_not_Nil [of cs sep] by (cases "Split cs sep") auto
  with Cons show ?case
    by (cases xs) auto
qed

lemma Split_no_sep: "x \<in> set (Split s sep) \<Longrightarrow> sep \<notin> set x"
proof (induction s arbitrary: x)
  case Nil
  then show ?case by simp
next
  case (Cons c cs)
  obtain y ys where sp: "Split cs sep = y # ys"
    using Split_not_Nil [of cs sep] by (cases "Split cs sep") auto
  with Cons show ?case
    by (auto split: if_splits)
qed

subsection \<open>Trimming and the body of the scanning loop\<close>

lemma trim_prefix_Nil: "trim_prefix rs [] = []"
proof -
  have "find (\<lambda>r. r \<noteq> [] \<and> take (length r) [] = r) rs = None"
    by (auto simp: find_None_iff)
  then show ?thesis by (simp add: trim_prefix.simps)
qed

lemma TrimSpace_Nil: "TrimSpace [] = []"
  by (simp add: TrimSpace_def trim_prefix_Nil)

lemma set_trim_prefix: "set (trim_prefix rs s) \<subseteq> set s"
proof (induction rs s rule: trim_prefix.induct)
  case (1 rs s)
  show ?case
  proof (cases "find (\<lambda>r. r \<noteq> [] \<and> take (length r) s = r) rs")
    case None
    then show ?thesis by (simp add: trim_prefix.simps)
  next
    case (Some r)
    with 1 have "set (trim_prefix rs (drop (length r) s)) \<subseteq> set (drop (length r) s)"
      by simp
    also have "\<dots> \<subseteq> set s" by (rule set_drop_subset)
    finally show ?thesis using Some by (simp add: trim_prefix.simps)
  qed
qed

lemma set_TrimSpace: "set (TrimSpace s) \<subseteq> set s"
proof -
  have "set (TrimSpace s) \<subseteq> set (rev (trim_prefix space_runes s))"
    unfolding TrimSpace_def using set_trim_prefix [of "map rev space_runes" "rev (trim_prefix space_runes s)"]
    by simp
  also have "\<dots> \<subseteq> set s" using set_trim_prefix [of space_runes s] by simp
  finally show ?thesis .
qed

lemma Index_zero: "Index line c = 0 \<longleftrightarrow> (line \<noteq> [] \<and> hd line = c)"
  by (cases line) (auto simp: Index_def)

lemma take_Index: "Index line c \<noteq> - 1 \<Longrightarrow> take (nat (Index line c)) line = takeWhile (\<lambda>x. x \<noteq> c) line"
  by (auto simp: Index_def takeWhile_eq_take [symmetric] split: if_splits)

lemma Index_none: "Index line c = - 1 \<Longrightarrow> takeWhile (\<lambda>x. x \<noteq> c) line = line"
  by (auto simp: Index_def split: if_splits)

lemma Setenv_trimmed_key:
  assumes "key = TrimSpace (takeWhile (\<lambda>c. c \<noteq> CHR ''='') content)" and "key \<noteq> []"
  shows "Setenv environ key val =
     (if CHR 0x00 \<in> set key \<or> CHR 0x00 \<in> set val then None else Some (environ(key \<mapsto> val)))"
proof -
  have "set key \<subseteq> set (takeWhile (\<lambda>c. c \<noteq> CHR ''='') content)"
    using assms(1) set_TrimSpace by simp
  then have "CHR ''='' \<notin> set key"
    by (auto dest: set_takeWhileD)
  with assms(2) show ?thesis
    by (auto simp: Setenv_def)
qed



lemma comment_slice:
  "(if Index line c \<noteq> - 1 then take (nat (Index line c)) line else line)
     = takeWhile (\<lambda>x. x \<noteq> c) line"
proof (cases "Index line c = - 1")
  case True
  then show ?thesis by (simp only: Index_none if_False simp_thms)
next
  case False
  then show ?thesis by (simp only: take_Index if_True simp_thms)
qed

lemma process_line_cases:
  "process_line filename lineNo environ line =
     (let content = takeWhile (\<lambda>c. c \<noteq> CHR ''#'') line in
      if TrimSpace content = [] then Inr environ
      else if CHR ''='' \<notin> set content then
        Inl (Errorf (''unable to parse line '' @ filename @ '':'' @ Itoa lineNo))
      else
        (let key = TrimSpace (takeWhile (\<lambda>c. c \<noteq> CHR ''='') content);
             val = TrimSpace (tl (dropWhile (\<lambda>c. c \<noteq> CHR ''='') content))
         in if key = [] \<or> val = [] then
              Inl (Errorf (''invalid environment variable assignment '' @ filename @ '':''
                           @ Itoa lineNo))
            else if CHR 0x00 \<in> set key \<or> CHR 0x00 \<in> set val then
              Inl (Errorf (''failed to assign '' @ key @ '' value '' @ val @ '' (''
                           @ filename @ '':'' @ Itoa lineNo @ '')''))
            else Inr (environ(key \<mapsto> val))))"
proof (cases "Index line CHR ''#'' = 0")
  case True
  then have "takeWhile (\<lambda>c. c \<noteq> CHR ''#'') line = []"
    by (cases line) (auto simp: Index_zero)
  with True show ?thesis
    by (simp add: process_line_def TrimSpace_Nil)
next
  case False
  define content where "content = takeWhile (\<lambda>c. c \<noteq> CHR ''#'') line"
  define key where "key = TrimSpace (takeWhile (\<lambda>c. c \<noteq> CHR ''='') content)"
  define val where "val = TrimSpace (tl (dropWhile (\<lambda>c. c \<noteq> CHR ''='') content))"
  show ?thesis
  proof (cases "TrimSpace content = []")
    case True
    with False show ?thesis
      unfolding process_line_def Let_def comment_slice by (simp add: content_def)
  next
    case nonblank: False
    show ?thesis
    proof (cases "CHR ''='' \<in> set content")
      case noeq: False
      then have "SplitN2 content CHR ''='' = [content]" by (simp add: SplitN2_def)
      with False nonblank noeq show ?thesis
        unfolding process_line_def Let_def comment_slice by (simp add: content_def)
    next
      case eq: True
      then have parts: "SplitN2 content CHR ''='' =
          [takeWhile (\<lambda>c. c \<noteq> CHR ''='') content, tl (dropWhile (\<lambda>c. c \<noteq> CHR ''='') content)]"
        by (simp add: SplitN2_def)
      show ?thesis
      proof (cases "key = [] \<or> val = []")
        case True
        with False nonblank eq show ?thesis
          unfolding process_line_def Let_def comment_slice content_def [symmetric] parts
          by (simp add: key_def val_def)
      next
        case kv: False
        then have "key \<noteq> []" by simp
        then have se: "Setenv environ key val =
            (if CHR 0x00 \<in> set key \<or> CHR 0x00 \<in> set val then None else Some (environ(key \<mapsto> val)))"
          using Setenv_trimmed_key [OF key_def] by simp
        have "process_line filename lineNo environ line =
            (case Setenv environ key val of
               None \<Rightarrow>
                 Inl (Errorf (''failed to assign '' @ key @ '' value '' @ val @ '' (''
                              @ filename @ '':'' @ Itoa lineNo @ '')''))
             | Some environ' \<Rightarrow> Inr environ')"
          using False nonblank eq kv
          unfolding process_line_def Let_def comment_slice content_def [symmetric] parts
          by (simp add: key_def val_def cong: option.case_cong)
        also have "\<dots> =
            (if CHR 0x00 \<in> set key \<or> CHR 0x00 \<in> set val then
               Inl (Errorf (''failed to assign '' @ key @ '' value '' @ val @ '' (''
                            @ filename @ '':'' @ Itoa lineNo @ '')''))
             else Inr (environ(key \<mapsto> val)))"
          unfolding se by simp
        finally have pl: "process_line filename lineNo environ line =
            (if CHR 0x00 \<in> set key \<or> CHR 0x00 \<in> set val then
               Inl (Errorf (''failed to assign '' @ key @ '' value '' @ val @ '' (''
                            @ filename @ '':'' @ Itoa lineNo @ '')''))
             else Inr (environ(key \<mapsto> val)))" .
        show ?thesis
          unfolding pl Let_def content_def [symmetric] key_def [symmetric] val_def [symmetric]
          using nonblank eq kv by simp
      qed
    qed
  qed
qed

lemma process_loop_append:
  "process_loop filename lineNo environ (pre @ rest) =
     (case process_loop filename lineNo environ pre of
        (Some err, environ1) \<Rightarrow> (Some err, environ1)
      | (None, environ1) \<Rightarrow> process_loop filename (lineNo + int (length pre)) environ1 rest)"
proof (induction pre arbitrary: lineNo environ)
  case Nil
  show ?case by simp
next
  case (Cons line pre)
  show ?case
  proof (cases "process_line filename (lineNo + 1) environ line")
    case (Inl err)
    then show ?thesis by simp
  next
    case (Inr environ')
    with Cons.IH [of "lineNo + 1" environ'] show ?thesis
      by (simp add: ac_simps split: prod.split option.split)
  qed
qed

subsection \<open>What the scanner delivers\<close>

lemma process_file_lines:
  "files filename = Some (Regular data) \<Longrightarrow>
     process files environ filename = process_loop filename (- 1) environ (ScanLines data)"
  by (simp add: process_def)

lemma ScanLines_short:
  assumes "\<forall>l \<in> set (raw_lines data). length l < 65536"
  shows "ScanLines data = map dropCR (raw_lines data)"
proof -
  from assms have all: "takeWhile (\<lambda>l. length l < 65536) (raw_lines data) = raw_lines data"
    by simp
  show ?thesis by (simp only: ScanLines_def all)
qed

lemma raw_lines_single: "s \<noteq> [] \<Longrightarrow> CHR 0x0A \<notin> set s \<Longrightarrow> raw_lines s = [s]"
proof (induction s)
  case Nil
  then show ?case by simp
next
  case (Cons c cs)
  then show ?case by (cases cs) auto
qed

lemma raw_lines_line:
  "CHR 0x0A \<notin> set l \<Longrightarrow> raw_lines (l @ CHR 0x0A # rest) = l # raw_lines rest"
  by (induction l) auto

lemma trim_prefix_keep:
  assumes "s \<noteq> []" and "\<forall>r \<in> set rs. r \<noteq> [] \<longrightarrow> hd r \<noteq> hd s"
  shows "trim_prefix rs s = s"
proof -
  have "find (\<lambda>r. r \<noteq> [] \<and> take (length r) s = r) rs = None"
  proof (rule ccontr)
    assume "find (\<lambda>r. r \<noteq> [] \<and> take (length r) s = r) rs \<noteq> None"
    then obtain r where "r \<in> set rs" and r: "r \<noteq> []" "take (length r) s = r"
      by (auto simp: find_None_iff)
    from r assms(1) have "hd r = hd s"
      by (cases r; cases s) auto
    with \<open>r \<in> set rs\<close> r(1) assms(2) show False by blast
  qed
  then show ?thesis by (simp add: trim_prefix.simps)
qed

lemma TrimSpace_xs: "0 < n \<Longrightarrow> TrimSpace (replicate n CHR ''x'') = replicate n CHR ''x''"
proof -
  assume n: "0 < n"
  then have ne: "replicate n CHR ''x'' \<noteq> []" by simp
  have hd: "hd (replicate n CHR ''x'') = CHR ''x''" using n by (cases n) auto
  have a: "trim_prefix space_runes (replicate n CHR ''x'') = replicate n CHR ''x''"
    by (rule trim_prefix_keep [OF ne]) (simp add: hd space_runes_def)
  have b: "trim_prefix (map rev space_runes) (replicate n CHR ''x'') = replicate n CHR ''x''"
    by (rule trim_prefix_keep [OF ne]) (simp add: hd space_runes_def)
  show ?thesis by (simp add: TrimSpace_def a b)
qed

lemma long_line_scan:
  "0 < n \<Longrightarrow> ScanLines (''A=1\<newline>'' @ replicate n CHR ''x'' @ ''\<newline>B=2'') =
     (if n < 65536 then [''A=1'', replicate n CHR ''x'', ''B=2''] else [''A=1''])"
  by (simp add: ScanLines_def dropCR_def raw_lines_line raw_lines_single)

subsection \<open>A file that fails at a line\<close>

lemma process_stops_at:
  assumes "files filename = Some (Regular data)"
    and "ScanLines data = pre @ bad # rest"
    and "process_loop filename (- 1) environ pre = (None, environ_kept)"
    and "process_line filename (int (length pre)) environ_kept bad = Inl err"
  shows "process files environ filename = (Some err, environ_kept)"
proof -
  have "process_loop filename (- 1) environ (pre @ bad # rest) = (Some err, environ_kept)"
    using assms(3,4) by (simp add: process_loop_append)
  with assms(1,2) show ?thesis by (simp add: process_def)
qed

lemma Load_home_file_fails:
  assumes "process files environ filename = (Some err, environ_kept)"
    and "files filename = Some (Regular data)"
    and "UserHomeDir environ = Some home"
    and "filename = path_Join [path_Clean home, ''.env'']"
  shows "Load files environ = (Some ErrBadUserFile, environ_kept)"
proof -
  have ex: "exists_file files filename"
    using assms(2) by (simp add: exists_file_def)
  from assms(1) ex have "Load_user files environ = (Some ErrBadUserFile, environ_kept)"
    unfolding assms(4) Load_user_def Let_def assms(3) by simp
  then show ?thesis by (simp add: Load_def)
qed

lemma Load_local_file_fails:
  assumes "process files environ ''.env'' = (Some err, environ_kept)"
    and "files ''.env'' = Some (Regular data)"
    and "Load_user files environ_start = (None, environ)"
  shows "Load files environ_start = (Some ErrBadLocalFile, environ_kept)"
proof -
  have ex: "exists_file files ''.env''"
    using assms(2) by (simp add: exists_file_def)
  from assms(1) ex show ?thesis
    unfolding Load_def Let_def assms(3) by simp
qed

subsection \<open>Load reads two paths\<close>

lemma Load_user_only_file:
  assumes "\<forall>p \<in> set (Load_paths environ). files' p = files p"
  shows "Load_user files' environ = Load_user files environ"
proof (cases "UserHomeDir environ")
  case None
  then show ?thesis by (simp add: Load_user_def)
next
  case (Some home)
  with assms have "files' (path_Join [path_Clean home, ''.env'']) = files (path_Join [path_Clean home, ''.env''])"
    by (simp add: Load_paths_def)
  with Some show ?thesis
    by (simp add: Load_user_def Let_def process_def exists_file_def)
qed

lemma Load_only_paths:
  assumes "\<forall>p \<in> set (Load_paths environ). files' p = files p"
  shows "Load files' environ = Load files environ"
proof -
  from assms have "files' ''.env'' = files ''.env''"
    by (simp add: Load_paths_def)
  then show ?thesis
    unfolding Load_def Let_def Load_user_only_file [OF assms]
    by (simp add: process_def exists_file_def split: prod.split option.split)
qed

lemma Load_error_sentinel:
  "fst (Load files environ) \<in> {None, Some ErrBadUserFile, Some ErrBadLocalFile}"
  by (auto simp: Load_def Load_user_def Let_def split: option.split prod.split)

subsection \<open>Evaluations used in the examples\<close>

lemma TrimSpace_examples:
  "TrimSpace '' DB_MAX '' = ''DB_MAX''" "TrimSpace '' 8 '' = ''8''"
  "TrimSpace '' DB_MAX = 8 '' = ''DB_MAX = 8''" "TrimSpace ''  '' = []"
  by code_simp+

lemma example_evaluations:
  "TrimSpace ''A=1'' = ''A=1''" "TrimSpace ''A'' = ''A''" "TrimSpace ''1'' = ''1''"
  "TrimSpace ''BAD'' = ''BAD''"
  "path_Join [path_Clean ''/home/u'', ''.env''] = ''/home/u/.env''"
  "Itoa 0 = ''0''" "Itoa 1 = ''1''"
  by code_simp+

lemma example_lines:
  "ScanLines ''A=1\<newline>BAD\<newline>C=3'' = [''A=1'', ''BAD'', ''C=3'']"
  "ScanLines ''BAD'' = [''BAD'']"
  "ScanLines ''A=1'' = [''A=1'']"
  by (simp_all add: ScanLines_def dropCR_def)

lemma example_bad_line: "process_line filename lineNo environ ''BAD'' =
    Inl (Errorf (''unable to parse line '' @ filename @ '':'' @ Itoa lineNo))"
  by (simp add: process_line_cases example_evaluations)

lemma example_good_line: "process_line filename lineNo environ ''A=1'' = Inr (environ(''A'' \<mapsto> ''1''))"
  by (simp add: process_line_cases example_evaluations)

lemma example_nul:
  "TrimSpace [CHR ''K'', CHR ''E'', CHR ''Y'', CHR ''='', CHR ''a'', CHR 0x00]
     = [CHR ''K'', CHR ''E'', CHR ''Y'', CHR ''='', CHR ''a'', CHR 0x00]"
  "TrimSpace ''KEY'' = ''KEY''"
  "TrimSpace [CHR ''a'', CHR 0x00] = [CHR ''a'', CHR 0x00]"
  "\<not> sublist ''KEY'' ''unable to parse $HOME/.env file''"
  "\<not> sublist [CHR ''a'', CHR 0x00] ''unable to parse $HOME/.env file''"
  "\<not> sublist ''0'' ''unable to parse $HOME/.env file''"
  by code_simp+

lemma example_nul_lines:
  "ScanLines [CHR ''K'', CHR ''E'', CHR ''Y'', CHR ''='', CHR ''a'', CHR 0x00]
     = [[CHR ''K'', CHR ''E'', CHR ''Y'', CHR ''='', CHR ''a'', CHR 0x00]]"
  by (simp add: ScanLines_def dropCR_def)

lemma example_nul_file:
  "ScanLines [CHR ''A'', CHR ''='', CHR ''1'', CHR 0x0A, CHR ''K'', CHR ''E'', CHR ''Y'', CHR ''='',
      CHR ''a'', CHR 0x00]
     = [''A=1'', [CHR ''K'', CHR ''E'', CHR ''Y'', CHR ''='', CHR ''a'', CHR 0x00]]"
  by (simp add: ScanLines_def dropCR_def)

subsection \<open>The parser against the numerals\<close>

lemma is_digit_nat: "is_digit c \<longleftrightarrow> 48 \<le> (of_char c :: nat) \<and> (of_char c :: nat) \<le> 57"
  by (simp add: is_digit_def less_eq_char_def)

lemma foldl_dec_step_ge: "a \<le> foldl dec_step a s"
proof (induction s arbitrary: a)
  case Nil
  show ?case by simp
next
  case (Cons c cs)
  have "a \<le> dec_step a c" by (simp add: dec_step_def)
  also have "\<dots> \<le> foldl dec_step (dec_step a c) cs" by (rule Cons.IH)
  finally show ?case by simp
qed

lemma digit_word: 
  assumes "is_digit c"
  shows "(of_char c :: 64 word) - 48 = word_of_nat (of_char c - 48)"
proof -
  have "(of_char c :: 64 word) = word_of_nat (of_char c)"
    by (simp add: of_nat_of_char)
  with assms show ?thesis
    by (simp add: is_digit_nat)
qed

lemma unat_small: "a < 2 ^ 64 \<Longrightarrow> unat (word_of_nat a :: 64 word) = a"
  by (simp add: unat_of_nat)

lemma ParseUint_loop_digits:
  assumes "\<forall>c \<in> set s. is_digit c" and "foldl dec_step a s < 2 ^ 64"
  shows "ParseUint_loop (word_of_nat a) s = Inr (word_of_nat (foldl dec_step a s))"
  using assms
proof (induction s arbitrary: a)
  case Nil
  show ?case by simp
next
  case (Cons c cs)
  let ?a' = "dec_step a c"
  from Cons.prems have dig: "is_digit c" and digs: "\<forall>c \<in> set cs. is_digit c"
    and bound: "foldl dec_step ?a' cs < 2 ^ 64"
    by simp_all
  from bound foldl_dec_step_ge [of ?a' cs] have a': "?a' < 2 ^ 64" by simp
  then have a10: "a * 10 < 2 ^ 64" and a: "a < 2 ^ 64" by (simp_all add: dec_step_def)
  have n: "unat (word_of_nat a :: 64 word) = a" using a by (rule unat_small)
  have n10: "(word_of_nat a :: 64 word) * 10 = word_of_nat (a * 10)" by simp
  have n1: "(word_of_nat a :: 64 word) * 10 + (of_char c - 48) = word_of_nat ?a'"
    by (simp add: digit_word [OF dig] dec_step_def)
  have u10: "unat (word_of_nat (a * 10) :: 64 word) = a * 10" using a10 by (rule unat_small)
  have u1: "unat (word_of_nat ?a' :: 64 word) = ?a'" using a' by (rule unat_small)
  have c1: "\<not> (word_of_nat a :: 64 word) \<ge> maxUint64 div 10 + 1"
    unfolding word_le_nat_alt n using a10 by (simp add: maxUint64_def)
  have c2: "\<not> (word_of_nat ?a' :: 64 word) < word_of_nat (a * 10)"
    unfolding word_less_nat_alt u10 u1 by (simp add: dec_step_def)
  have c3: "\<not> (word_of_nat ?a' :: 64 word) > maxUint64"
    unfolding word_less_nat_alt u1 using a' by (simp add: maxUint64_def)
  have "ParseUint_loop (word_of_nat a) (c # cs) = ParseUint_loop (word_of_nat ?a') cs"
    using dig c1 c2 c3 by (simp add: Let_def n1 is_digit_def)
  also have "\<dots> = Inr (word_of_nat (foldl dec_step ?a' cs))"
    using digs bound by (rule Cons.IH)
  finally show ?case by simp
qed


lemma digit_char: "m < 10 \<Longrightarrow> is_digit (char_of (48 + m)) \<and> (of_char (char_of (48 + m)) :: nat) - 48 = m"
  by (simp add: is_digit_nat)

lemma digits_not_Nil: "digits n \<noteq> []"
  by (subst digits.simps) simp

lemma digits_are_digits: "\<forall>c \<in> set (digits n). is_digit c"
proof (induction n rule: digits.induct)
  case (1 n)
  show ?case
  proof (cases "n < 10")
    case True
    then show ?thesis by (subst digits.simps) (simp add: digit_char)
  next
    case False
    with 1 have "\<forall>c \<in> set (digits (n div 10)). is_digit c" by simp
    moreover have "is_digit (char_of (48 + n mod 10))" by (simp add: digit_char)
    ultimately show ?thesis using False by (subst digits.simps) simp
  qed
qed

lemma foldl_digits: "foldl dec_step 0 (digits n) = n"
proof (induction n rule: digits.induct)
  case (1 n)
  show ?case
  proof (cases "n < 10")
    case True
    then show ?thesis by (subst digits.simps) (simp add: dec_step_def digit_char)
  next
    case False
    with 1 have "foldl dec_step 0 (digits (n div 10)) = n div 10" by simp
    then show ?thesis using False
      by (subst digits.simps) (simp add: dec_step_def digit_char)
  qed
qed

lemma ParseUint_digits:
  assumes "n < 2 ^ 64"
  shows "ParseUint (digits n) = Inr (word_of_nat n)"
  using ParseUint_loop_digits [of "digits n" 0] assms
  by (simp add: ParseUint_def digits_not_Nil digits_are_digits foldl_digits)

lemma hd_digits: "hd (digits n) \<noteq> CHR ''+'' \<and> hd (digits n) \<noteq> CHR ''-''"
proof -
  have "hd (digits n) \<in> set (digits n)" using digits_not_Nil by simp
  with digits_are_digits have "is_digit (hd (digits n))" by blast
  then show ?thesis by (auto simp: is_digit_nat)
qed

lemma ParseInt_Itoa:
  assumes "- (2 ^ 63) \<le> i" and "i < 2 ^ 63"
  shows "ParseInt (Itoa i) = Inr (word_of_int i)"
proof (cases "i < 0")
  case False
  then have s: "Itoa i = digits (nat i)" by (simp add: Itoa_def)
  from False assms have b: "nat i < 2 ^ 63" by simp
  then have pu: "ParseUint (digits (nat i)) = Inr (word_of_nat (nat i))"
    by (intro ParseUint_digits) simp
  have u: "unat (word_of_nat (nat i) :: 64 word) = nat i"
    using b by (simp add: unat_of_nat)
  have lt: "\<not> (word_of_nat (nat i) :: 64 word) \<ge> 2 ^ 63"
    unfolding word_le_nat_alt u using b by simp
  have "word_of_nat (nat i) = (word_of_int i :: 64 word)"
    using False by simp
  with pu lt show ?thesis
    unfolding s ParseInt_def Let_def using hd_digits [of "nat i"] digits_not_Nil [of "nat i"]
    by simp
next
  case True
  then have s: "Itoa i = CHR ''-'' # digits (nat (- i))" by (simp add: Itoa_def)
  from True assms have b: "nat (- i) \<le> 2 ^ 63" by simp
  then have pu: "ParseUint (digits (nat (- i))) = Inr (word_of_nat (nat (- i)))"
    by (intro ParseUint_digits) simp
  have u: "unat (word_of_nat (nat (- i)) :: 64 word) = nat (- i)"
    using b by (simp add: unat_of_nat)
  have lt: "\<not> (word_of_nat (nat (- i)) :: 64 word) > 2 ^ 63"
    unfolding word_less_nat_alt u using b by simp
  have "- word_of_nat (nat (- i)) = (word_of_int i :: 64 word)"
    using True by simp
  with pu lt show ?thesis
    unfolding s ParseInt_def Let_def
    by simp
qed


lemma ParseUint_loop_not_digits:
  "\<not> (\<forall>c \<in> set s. is_digit c) \<Longrightarrow> \<exists>e. ParseUint_loop n s = Inl e"
proof (induction s arbitrary: n)
  case Nil
  then show ?case by simp
next
  case (Cons c cs)
  show ?case
  proof (cases "is_digit c")
    case False
    then show ?thesis by (simp add: is_digit_def)
  next
    case True
    with Cons.prems have "\<not> (\<forall>c \<in> set cs. is_digit c)" by simp
    then have "\<exists>e. ParseUint_loop (n * 10 + (of_char c - 48)) cs = Inl e"
      by (rule Cons.IH)
    then show ?thesis by (auto simp: Let_def)
  qed
qed

lemma ParseUint_loop_overflow:
  assumes "\<forall>c \<in> set s. is_digit c" and "a < 2 ^ 64" and "\<not> foldl dec_step a s < 2 ^ 64"
  shows "ParseUint_loop (word_of_nat a) s = Inl ErrRange"
  using assms
proof (induction s arbitrary: a)
  case Nil
  then show ?case by simp
next
  case (Cons c cs)
  let ?a' = "dec_step a c"
  from Cons.prems have dig: "is_digit c" and digs: "\<forall>c \<in> set cs. is_digit c"
    and a: "a < 2 ^ 64" and over: "\<not> foldl dec_step ?a' cs < 2 ^ 64"
    by simp_all
  have n: "unat (word_of_nat a :: 64 word) = a" using a by (rule unat_small)
  have d9: "(of_char c :: nat) - 48 \<le> 9" using dig unfolding is_digit_nat by arith
  have n1: "(word_of_nat a :: 64 word) * 10 + (of_char c - 48) = word_of_nat ?a'"
    by (simp add: digit_word [OF dig] dec_step_def)
  show ?case
  proof (cases "a * 10 < 2 ^ 64")
    case False
    then have "(word_of_nat a :: 64 word) \<ge> maxUint64 div 10 + 1"
      unfolding word_le_nat_alt n by (simp add: maxUint64_def)
    with dig show ?thesis by (simp add: is_digit_def)
  next
    case a10: True
    then have c1: "\<not> (word_of_nat a :: 64 word) \<ge> maxUint64 div 10 + 1"
      unfolding word_le_nat_alt n by (simp add: maxUint64_def)
    have u10: "unat (word_of_nat (a * 10) :: 64 word) = a * 10" using a10 by (rule unat_small)
    show ?thesis
    proof (cases "?a' < 2 ^ 64")
      case True
      then have u1: "unat (word_of_nat ?a' :: 64 word) = ?a'" by (rule unat_small)
      have c2: "\<not> (word_of_nat ?a' :: 64 word) < word_of_nat (a * 10)"
        unfolding word_less_nat_alt u10 u1 by (simp add: dec_step_def)
      have c3: "\<not> (word_of_nat ?a' :: 64 word) > maxUint64"
        unfolding word_less_nat_alt u1 using True by (simp add: maxUint64_def)
      have "ParseUint_loop (word_of_nat a) (c # cs) = ParseUint_loop (word_of_nat ?a') cs"
        using dig c1 c2 c3 by (simp add: Let_def n1 is_digit_def)
      also have "\<dots> = Inl ErrRange"
        using digs True over by (rule Cons.IH)
      finally show ?thesis .
    next
      case False
      have "unat (word_of_nat ?a' :: 64 word) = ?a' mod 2 ^ 64" by (simp add: unat_of_nat)
      also have "\<dots> = ?a' - 2 ^ 64"
        using False a10 d9 by (simp add: dec_step_def mod_if)
      finally have u1: "unat (word_of_nat ?a' :: 64 word) = ?a' - 2 ^ 64" .
      have c2: "(word_of_nat ?a' :: 64 word) < word_of_nat (a * 10)"
        unfolding word_less_nat_alt u10 u1 using False a10 d9 by (simp add: dec_step_def)
      with dig c1 show ?thesis by (simp add: Let_def n1 is_digit_def)
    qed
  qed
qed

lemma ParseUint_loop_Inr_iff:
  assumes "a < 2 ^ 64"
  shows "ParseUint_loop (word_of_nat a) s = Inr r \<longleftrightarrow>
    (\<forall>c \<in> set s. is_digit c) \<and> foldl dec_step a s < 2 ^ 64 \<and> r = word_of_nat (foldl dec_step a s)"
proof (cases "\<forall>c \<in> set s. is_digit c")
  case False
  with ParseUint_loop_not_digits [of s "word_of_nat a"] show ?thesis by auto
next
  case digs: True
  show ?thesis
  proof (cases "foldl dec_step a s < 2 ^ 64")
    case True
    with digs ParseUint_loop_digits [of s a] show ?thesis by auto
  next
    case False
    with digs assms ParseUint_loop_overflow [of s a] show ?thesis by auto
  qed
qed


lemma ParseUint_Inr_iff:
  "ParseUint ds = Inr un \<longleftrightarrow>
     ds \<noteq> [] \<and> list_all is_digit ds \<and> foldl dec_step 0 ds < 2 ^ 64
     \<and> un = word_of_nat (foldl dec_step 0 ds)"
  using ParseUint_loop_Inr_iff [of 0 ds un]
  by (simp add: ParseUint_def list_all_iff)

lemma ParseInt_Inr_iff:
  "ParseInt s = Inr w \<longleftrightarrow>
     (\<exists>v. decimal_value s = Some v \<and> - (2 ^ 63) \<le> v \<and> v < 2 ^ 63 \<and> w = word_of_int v)"
proof (cases "s = []")
  case True
  then show ?thesis by (simp add: ParseInt_def decimal_value_def)
next
  case ne: False
  define neg where "neg = (hd s = CHR ''-'')"
  define ds where "ds = (if hd s = CHR ''+'' \<or> hd s = CHR ''-'' then tl s else s)"
  define V where "V = foldl dec_step 0 ds"
  have dv: "decimal_value s =
      (if ds = [] \<or> \<not> list_all is_digit ds then None
       else Some (if neg then - int V else int V))"
    using ne by (simp add: decimal_value_def neg_def ds_def V_def)
  have pi: "ParseInt s =
      (case ParseUint ds of
         Inl ErrSyntax \<Rightarrow> Inl ErrSyntax
       | r \<Rightarrow>
           (let un = (case r of Inr n \<Rightarrow> n | Inl _ \<Rightarrow> maxUint64)
            in if \<not> neg \<and> un \<ge> 2 ^ 63 then Inl ErrRange
               else if neg \<and> un > 2 ^ 63 then Inl ErrRange
               else Inr (if neg then - un else un)))"
    using ne unfolding ParseInt_def Let_def neg_def ds_def by simp
  show ?thesis
  proof (cases "ParseUint ds")
    case (Inl e)
    have "\<not> (ds \<noteq> [] \<and> list_all is_digit ds \<and> V < 2 ^ 64)"
      using ParseUint_Inr_iff [of ds "word_of_nat V"] Inl by (simp add: V_def)
    then have rhs: "\<not> (\<exists>v. decimal_value s = Some v \<and> - (2 ^ 63) \<le> v \<and> v < 2 ^ 63 \<and> w = word_of_int v)"
      unfolding dv by auto
    have "\<exists>e'. ParseInt s = Inl e'"
      unfolding pi Inl by (cases e) (simp_all add: maxUint64_def Let_def)
    with rhs show ?thesis by auto
  next
    case (Inr un)
    then have ok: "ds \<noteq> []" "list_all is_digit ds" "V < 2 ^ 64" and un: "un = word_of_nat V"
      using ParseUint_Inr_iff [of ds un] by (simp_all add: V_def)
    have u: "unat un = V" unfolding un using ok(3) by (rule unat_small)
    have ge: "un \<ge> 2 ^ 63 \<longleftrightarrow> V \<ge> 2 ^ 63" unfolding word_le_nat_alt u by simp
    have gt: "un > 2 ^ 63 \<longleftrightarrow> V > 2 ^ 63" unfolding word_less_nat_alt u by simp
    have dv': "decimal_value s = Some (if neg then - int V else int V)"
      unfolding dv using ok by simp
    show ?thesis
    proof (cases neg)
      case True
      then have "ParseInt s = (if V > 2 ^ 63 then Inl ErrRange else Inr (- un))"
        unfolding pi Inr using gt by (simp add: Let_def)
      with True un show ?thesis
        unfolding dv' by auto
    next
      case False
      then have "ParseInt s = (if V \<ge> 2 ^ 63 then Inl ErrRange else Inr un)"
        unfolding pi Inr using ge by (simp add: Let_def)
      with False un show ?thesis
        unfolding dv' by auto
    qed
  qed
qed

lemma ParseInt_int64_value:
  "ParseInt s = (case int64_value s of Some v \<Rightarrow> Inr (word_of_int v) | None \<Rightarrow> ParseInt s)"
  "int64_value s = None \<Longrightarrow> \<exists>e. ParseInt s = Inl e"
proof -
  show "ParseInt s = (case int64_value s of Some v \<Rightarrow> Inr (word_of_int v) | None \<Rightarrow> ParseInt s)"
    using ParseInt_Inr_iff [of s]
    by (auto simp: int64_value_def split: option.split)
  show "\<exists>e. ParseInt s = Inl e" if "int64_value s = None"
  proof (cases "ParseInt s")
    case (Inl e)
    then show ?thesis by simp
  next
    case (Inr w)
    with ParseInt_Inr_iff [of s w] that show ?thesis
      by (auto simp: int64_value_def split: option.splits if_splits)
  qed
qed

lemma sint_int64: "- (2 ^ 63) \<le> v \<Longrightarrow> v < 2 ^ 63 \<Longrightarrow> sint (word_of_int v :: 64 word) = v"
  by (simp add: sint_sbintrunc' signed_take_bit_int_eq_self)

lemma int64_value_range: "int64_value s = Some v \<Longrightarrow> - (2 ^ 63) \<le> v \<and> v < 2 ^ 63"
  by (auto simp: int64_value_def split: option.splits if_splits)

lemma int64_value_Itoa:
  assumes "- (2 ^ 63) \<le> i" and "i < 2 ^ 63"
  shows "int64_value (Itoa i) = Some i"
proof -
  from ParseInt_Itoa [OF assms] ParseInt_Inr_iff [of "Itoa i" "word_of_int i"]
  obtain v where v: "decimal_value (Itoa i) = Some v" "- (2 ^ 63) \<le> v" "v < 2 ^ 63"
    and w: "(word_of_int i :: 64 word) = word_of_int v"
    by auto
  from w have "sint (word_of_int i :: 64 word) = sint (word_of_int v :: 64 word)" by simp
  with assms v(2,3) have "i = v" by (simp add: sint_int64)
  with v show ?thesis by (simp add: int64_value_def)
qed

lemma int64_value_examples:
  "int64_value ''10'' = Some 10" "int64_value ''abc'' = None" "int64_value [] = None"
  by (simp_all add: int64_value_def decimal_value_def is_digit_def dec_step_def)

subsection \<open>The table when it fits the terminal\<close>

lemma pad_panics_iff:
  "pad val width = Inl p \<longleftrightarrow> p = SliceBounds \<and> width < int (length val) \<and> width < 3"
  by (auto simp: pad_def)

lemma Help_widths_keys:
  "fst (Help_widths sprint reg (keys, w, dw, vw)) = keys @ map fst reg"
  by (induction reg arbitrary: keys w dw vw) (auto simp: Let_def)

lemma Help_widths_bounds:
  assumes "Help_widths sprint reg (keys, w, dw, vw) = (keys', w', dw', vw')"
  shows "w \<le> w' \<and> dw \<le> dw' \<and> vw \<le> vw'
    \<and> (\<forall>(k, d) \<in> set reg. int (length k) \<le> w' \<and> int (length (Description d)) \<le> dw'
          \<and> int (length (sprint (DefaultValue d))) \<le> vw')"
  using assms
proof (induction reg arbitrary: keys w dw vw)
  case Nil
  then show ?case by simp
next
  case (Cons e reg)
  obtain k d where e: "e = (k, d)" by (cases e)
  let ?w = "if int (length k) > w then int (length k) else w"
  let ?dw = "if int (length (Description d)) > dw then int (length (Description d)) else dw"
  let ?vw = "if int (length (sprint (DefaultValue d))) > vw
             then int (length (sprint (DefaultValue d))) else vw"
  from Cons.prems have "Help_widths sprint reg (keys @ [k], ?w, ?dw, ?vw) = (keys', w', dw', vw')"
    by (simp add: e Let_def)
  from Cons.IH [OF this] show ?case
    by (auto simp: e split: if_splits)
qed

lemma pad_fill: "int (length val) \<le> width \<Longrightarrow> pad val width = Inr (fill val width)"
  by (simp add: pad_def fill_def)

lemma typeNames_short: "int (length (typeNames t)) \<le> 12"
  by (simp add: typeNames_def)

lemma Help_rows_fit:
  assumes "\<forall>key \<in> set keys. int (length key) \<le> width
      \<and> (\<exists>d. map_of registered key = Some d \<and> int (length (Description d)) \<le> descWidth
            \<and> int (length (sprint (DefaultValue d))) \<le> defvalWidth)"
  shows "Help_rows sprint registered width descWidth defvalWidth keys out =
    (None, out @ concat (map (Help_row sprint registered width descWidth defvalWidth) keys))"
  using assms
proof (induction keys arbitrary: out)
  case Nil
  show ?case by simp
next
  case (Cons key keys)
  from Cons.prems obtain d where d: "map_of registered key = Some d"
    and fits: "int (length key) \<le> width" "int (length (Description d)) \<le> descWidth"
      "int (length (sprint (DefaultValue d))) \<le> defvalWidth"
    by auto
  from Cons.prems have rest: "\<forall>key \<in> set keys. int (length key) \<le> width
      \<and> (\<exists>d. map_of registered key = Some d \<and> int (length (Description d)) \<le> descWidth
            \<and> int (length (sprint (DefaultValue d))) \<le> defvalWidth)"
    by simp
  have row: "Help_row sprint registered width descWidth defvalWidth key =
      fill key width @ ''  '' @ fill (typeNames (DataType d)) 12 @ ''  ''
      @ fill (Description d) descWidth @ ''  ''
      @ fill (sprint (DefaultValue d)) defvalWidth @ [CHR 0x0A]"
    using d by (simp add: Help_row_def)
  have "Help_rows sprint registered width descWidth defvalWidth (key # keys) out =
      Help_rows sprint registered width descWidth defvalWidth keys
        (out @ Help_row sprint registered width descWidth defvalWidth key)"
    unfolding row using d
    by (simp add: pad_fill [OF fits(1)] pad_fill [OF typeNames_short] pad_fill [OF fits(2)]
        pad_fill [OF fits(3)])
  also have "\<dots> = (None, (out @ Help_row sprint registered width descWidth defvalWidth key)
      @ concat (map (Help_row sprint registered width descWidth defvalWidth) keys))"
    by (rule Cons.IH [OF rest])
  finally show ?case by simp
qed

lemma Help_fits:
  assumes "distinct (map fst registered)"
    and "Help_widths sprint registered ([], 0, 0, 0) = (keys, width, descWidth, defvalWidth)"
    and "width + descWidth + defvalWidth + 18 \<le> (case termSize of Some w \<Rightarrow> w | None \<Rightarrow> 80)"
  shows "Help sprint termSize registered =
      (None, concat (map (Help_row sprint registered width descWidth defvalWidth)
                       (sort (map fst registered))))"
    and "sorted (sort (map fst registered))" and "distinct (sort (map fst registered))"
    and "set (sort (map fst registered)) = fst ` set registered"
proof -
  have keys: "keys = map fst registered"
    using Help_widths_keys [of sprint registered "[]" 0 0 0] assms(2) by simp
  have bounds: "\<forall>(k, d) \<in> set registered. int (length k) \<le> width
      \<and> int (length (Description d)) \<le> descWidth
      \<and> int (length (sprint (DefaultValue d))) \<le> defvalWidth"
    using Help_widths_bounds [OF assms(2)] by simp
  have fit: "\<forall>key \<in> set (sort keys). int (length key) \<le> width
      \<and> (\<exists>d. map_of registered key = Some d \<and> int (length (Description d)) \<le> descWidth
            \<and> int (length (sprint (DefaultValue d))) \<le> defvalWidth)"
  proof
    fix key assume "key \<in> set (sort keys)"
    then have "key \<in> fst ` set registered" by (simp add: keys)
    then obtain d where kd: "(key, d) \<in> set registered" by auto
    with assms(1) have "map_of registered key = Some d" by simp
    with bounds kd show "int (length key) \<le> width
      \<and> (\<exists>d. map_of registered key = Some d \<and> int (length (Description d)) \<le> descWidth
            \<and> int (length (sprint (DefaultValue d))) \<le> defvalWidth)"
      by auto
  qed
  show "Help sprint termSize registered =
      (None, concat (map (Help_row sprint registered width descWidth defvalWidth)
                       (sort (map fst registered))))"
    using assms(3) Help_rows_fit [OF fit, of "[]"]
    by (simp add: Help_def assms(2) keys)
  show "sorted (sort (map fst registered))" by simp
  show "distinct (sort (map fst registered))" using assms(1) by simp
  show "set (sort (map fst registered)) = fst ` set registered" by simp
qed

lemma Register_distinct:
  "distinct (map fst registered) \<Longrightarrow> distinct (map fst (snd (Register registered key v description)))"
  by (auto simp: Register_def distinct_update split: option.split)

subsection \<open>GetStringSlice\<close>

text \<open>
  Claim C10. For a key whose environment variable is set, \<open>GetStringSlice\<close> returns the
  comma-split of the raw value: a sequence that is never empty, whose pieces hold no comma
  and give the value back when joined with commas. For the empty value it is the
  one-element sequence holding the empty string, neither nil (\<open>None\<close>) nor empty. The
  result is the same under any other registry: the registered default is not consulted.
\<close>

theorem GetStringSlice_set_splits:
  assumes "environ key = Some val"
  shows "GetStringSlice registered environ key = Some (Split val CHR '','')
    \<and> Split val CHR '','' \<noteq> []
    \<and> Join (Split val CHR '','') CHR '','' = val
    \<and> (\<forall>x \<in> set (Split val CHR '',''). CHR '','' \<notin> set x)
    \<and> (val = [] \<longrightarrow> GetStringSlice registered environ key = Some [[]])
    \<and> GetStringSlice registered' environ key = GetStringSlice registered environ key"
  using assms by (simp add: GetStringSlice_def Split_not_Nil Join_Split Split_no_sep)

theorem GetStringSlice_set_splits_witness:
  "GetStringSlice (snd (Register [] ''HOSTS'' (VStringSlice (Some [''x''])) ''hosts''))
       [''HOSTS'' \<mapsto> []] ''HOSTS'' = Some [[]]
   \<and> GetStringSlice [] [''HOSTS'' \<mapsto> ''a,b,c''] ''HOSTS'' = Some [''a'', ''b'', ''c'']"
  using GetStringSlice_set_splits [of "[''HOSTS'' \<mapsto> []]" "''HOSTS''" "[]"
      "snd (Register [] ''HOSTS'' (VStringSlice (Some [''x''])) ''hosts'')"]
    GetStringSlice_set_splits [of "[''HOSTS'' \<mapsto> ''a,b,c'']" "''HOSTS''" "''a,b,c''" "[]"]
  by simp

subsection \<open>GetBool\<close>

lemma GetBool_set:
  assumes "environ key = Some val"
  shows "GetBool registered environ key \<longleftrightarrow>
    EqualFold val ''true''
    \<or> (\<exists>d. Default registered key = Some d \<and> DefaultValue d = VBool True)"
  using assms by (auto simp: GetBool_def split: option.split gvalue.split)

text \<open>
  Claim C1. The claim says that a set variable whose value is not \<open>true\<close> makes
  \<open>GetBool\<close> return false without looking at the registered default. The code falls
  through to the default instead: with \<open>ENABLE_TLS=false\<close> in the environment and a
  registered default of \<open>true\<close>, \<open>GetBool\<close> returns true.
\<close>

theorem GetBool_set_false_default_true:
  "[''ENABLE_TLS'' \<mapsto> ''false''] ''ENABLE_TLS'' = Some ''false''
   \<and> EqualFold ''false'' ''true'' = False
   \<and> GetBool (snd (Register [] ''ENABLE_TLS'' (VBool True) ''use TLS''))
        [''ENABLE_TLS'' \<mapsto> ''false''] ''ENABLE_TLS'' = True"
  by (simp add: GetBool_def Register_def Default_def EqualFold_def lower_def)

subsection \<open>GetInt\<close>

text \<open>
  Claim C7. When the variable is set to a base-10 numeral of a 64-bit integer \<open>v\<close>,
  \<open>GetInt\<close> returns \<open>v\<close>. When the variable is unset, or set to a value that is no such
  numeral, \<open>GetInt\<close> returns the registered default if the key has a descriptor whose
  default is an \<open>int\<close>, and 0 otherwise: a value that does not parse is no error and does
  not bypass the default.
\<close>

theorem GetInt_resolution:
  "(environ key = Some val \<and> int64_value val = Some v \<longrightarrow>
      GetInt registered environ key = word_of_int v \<and> sint (GetInt registered environ key) = v)
   \<and> (environ key = None \<or> (environ key = Some val \<and> int64_value val = None) \<longrightarrow>
        (Default registered key = Some d \<and> DefaultValue d = VInt n \<longrightarrow>
           GetInt registered environ key = n)
        \<and> (Default registered key = None
            \<or> (Default registered key = Some d \<and> kind_of (DefaultValue d) \<noteq> KInt) \<longrightarrow>
           GetInt registered environ key = 0))"
proof -
  have parsed: "GetInt registered environ key = word_of_int v
      \<and> sint (GetInt registered environ key) = v"
    if "environ key = Some val" and "int64_value val = Some v"
  proof -
    from that(2) have "Atoi val = Inr (word_of_int v)"
      using ParseInt_int64_value(1) [of val] by (simp add: Atoi_def)
    with that(1) have "GetInt registered environ key = word_of_int v"
      by (simp add: GetInt_def)
    with int64_value_range [OF that(2)] show ?thesis
      by (simp add: sint_int64)
  qed
  have fallen: "GetInt registered environ key =
      (case Default registered key of
         Some d \<Rightarrow> (case DefaultValue d of VInt n \<Rightarrow> n | _ \<Rightarrow> 0)
       | None \<Rightarrow> 0)"
    if "environ key = None \<or> (environ key = Some val \<and> int64_value val = None)"
  proof -
    from that have "environ key = None \<or> (\<exists>e. environ key = Some val \<and> Atoi val = Inl e)"
      using ParseInt_int64_value(2) [of val] by (auto simp: Atoi_def)
    then show ?thesis
      by (auto simp: GetInt_def split: option.split gvalue.split)
  qed
  show ?thesis
    using parsed fallen by (cases "DefaultValue d") auto
qed

theorem GetInt_resolution_witness:
  "GetInt [] [''MAX_CONNS'' \<mapsto> ''10''] ''MAX_CONNS'' = 10
   \<and> GetInt (snd (Register [] ''MAX_CONNS'' (VInt 25) ''connections''))
        [''MAX_CONNS'' \<mapsto> ''abc''] ''MAX_CONNS'' = 25
   \<and> GetInt (snd (Register [] ''MAX_CONNS'' (VInt 25) ''connections'')) Map.empty ''MAX_CONNS'' = 25
   \<and> GetInt [] [''MAX_CONNS'' \<mapsto> ''abc''] ''MAX_CONNS'' = 0
   \<and> GetInt (snd (Register [] ''MAX_CONNS'' (VString ''many'') ''connections''))
        [''MAX_CONNS'' \<mapsto> ''abc''] ''MAX_CONNS'' = 0"
  using
    GetInt_resolution [where environ = "[''MAX_CONNS'' \<mapsto> ''10'']" and key = "''MAX_CONNS''"
      and val = "''10''" and v = 10 and registered = "[]"]
    GetInt_resolution [where environ = "[''MAX_CONNS'' \<mapsto> ''abc'']" and key = "''MAX_CONNS''"
      and val = "''abc''"
      and registered = "snd (Register [] ''MAX_CONNS'' (VInt 25) ''connections'')"
      and d = "\<lparr>Var = ''MAX_CONNS'', DataType = IntType, DefaultValue = VInt 25,
        Description = ''connections''\<rparr>" and n = 25]
    GetInt_resolution [where environ = Map.empty and key = "''MAX_CONNS''"
      and registered = "snd (Register [] ''MAX_CONNS'' (VInt 25) ''connections'')"
      and d = "\<lparr>Var = ''MAX_CONNS'', DataType = IntType, DefaultValue = VInt 25,
        Description = ''connections''\<rparr>" and n = 25]
    GetInt_resolution [where environ = "[''MAX_CONNS'' \<mapsto> ''abc'']" and key = "''MAX_CONNS''"
      and val = "''abc''" and registered = "[]"]
    GetInt_resolution [where environ = "[''MAX_CONNS'' \<mapsto> ''abc'']" and key = "''MAX_CONNS''"
      and val = "''abc''"
      and registered = "snd (Register [] ''MAX_CONNS'' (VString ''many'') ''connections'')"
      and d = "\<lparr>Var = ''MAX_CONNS'', DataType = StringType, DefaultValue = VString ''many'',
        Description = ''connections''\<rparr>"]
  by (simp add: int64_value_examples Register_def Default_def)

subsection \<open>GetInt64\<close>

text \<open>
  Claim C3, as amended. When the variable is unset, or set to a value that is no base-10
  numeral of a 64-bit integer, \<open>GetInt64\<close> returns the registered default when its runtime
  type is \<open>int64\<close> and also, converted to \<open>int64\<close>, when it is \<open>int\<close>; it returns 0 when
  the descriptor's default has any other runtime type and when there is no descriptor.
\<close>

theorem GetInt64_default_resolution:
  assumes "environ key = None \<or> (environ key = Some val \<and> int64_value val = None)"
  shows "(Default registered key = Some d \<and> DefaultValue d = VInt64 n \<longrightarrow>
            GetInt64 registered environ key = n)
    \<and> (Default registered key = Some d \<and> DefaultValue d = VInt n \<longrightarrow>
            GetInt64 registered environ key = n)
    \<and> (Default registered key = Some d \<and> kind_of (DefaultValue d) \<noteq> KInt64
          \<and> kind_of (DefaultValue d) \<noteq> KInt \<longrightarrow> GetInt64 registered environ key = 0)
    \<and> (Default registered key = None \<longrightarrow> GetInt64 registered environ key = 0)"
proof -
  from assms have "environ key = None \<or> (\<exists>e. environ key = Some val \<and> ParseInt val = Inl e)"
    using ParseInt_int64_value(2) [of val] by auto
  then show ?thesis
    by (cases "DefaultValue d") (auto simp: GetInt64_def)
qed

theorem GetInt64_default_resolution_witness:
  "GetInt64 (snd (Register [] ''LIMIT'' (VInt 5) ''limit'')) Map.empty ''LIMIT'' = 5
   \<and> GetInt64 (snd (Register [] ''LIMIT'' (VBool True) ''limit''))
        [''LIMIT'' \<mapsto> ''abc''] ''LIMIT'' = 0
   \<and> GetInt64 [] [''LIMIT'' \<mapsto> ''abc''] ''LIMIT'' = 0"
  using
    GetInt64_default_resolution [where environ = Map.empty and key = "''LIMIT''"
      and registered = "snd (Register [] ''LIMIT'' (VInt 5) ''limit'')"
      and d = "\<lparr>Var = ''LIMIT'', DataType = IntType, DefaultValue = VInt 5,
        Description = ''limit''\<rparr>" and n = 5]
    GetInt64_default_resolution [where environ = "[''LIMIT'' \<mapsto> ''abc'']" and key = "''LIMIT''"
      and val = "''abc''"
      and registered = "snd (Register [] ''LIMIT'' (VBool True) ''limit'')"
      and d = "\<lparr>Var = ''LIMIT'', DataType = BoolType, DefaultValue = VBool True,
        Description = ''limit''\<rparr>"]
    GetInt64_default_resolution [where environ = "[''LIMIT'' \<mapsto> ''abc'']" and key = "''LIMIT''"
      and val = "''abc''" and registered = "[]"]
  by (simp add: int64_value_examples Register_def Default_def)

text \<open>
  The claim as stated fails: a default registered from the \<open>int\<close> 5 does not have the
  runtime type \<open>int64\<close>, and \<open>GetInt64\<close> on the unset variable returns 5, not 0.
\<close>

theorem GetInt64_int_default_counterexample:
  "Map.empty ''LIMIT'' = (None :: string option)
   \<and> Default (snd (Register [] ''LIMIT'' (VInt 5) ''limit'')) ''LIMIT''
       = Some \<lparr>Var = ''LIMIT'', DataType = IntType, DefaultValue = VInt 5, Description = ''limit''\<rparr>
   \<and> kind_of (VInt 5) \<noteq> KInt64
   \<and> GetInt64 (snd (Register [] ''LIMIT'' (VInt 5) ''limit'')) Map.empty ''LIMIT'' \<noteq> 0"
  by (simp add: GetInt64_def Register_def Default_def)

subsection \<open>Register and Default\<close>

text \<open>
  Claim C2, as amended. For a default value whose kind is one of the six kinds of the type
  switch (string, string list, int, float, bool, duration), \<open>Register\<close> does not panic, and
  \<open>Default\<close> afterwards finds a descriptor with the name, the tag of that kind, the value
  itself and the description. For a value of any other kind, \<open>int64\<close> among them,
  \<open>Register\<close> panics and leaves the registry as it was.
\<close>

theorem Register_then_Default:
  "(kind_of v \<in> {KString, KStringList, KInt, KFloat, KBool, KDuration} \<longrightarrow>
      fst (Register registered name v description) = None
      \<and> Default (snd (Register registered name v description)) name =
          Some \<lparr>Var = name,
                DataType = (case kind_of v of
                    KString \<Rightarrow> StringType | KStringList \<Rightarrow> StringSliceType | KInt \<Rightarrow> IntType
                  | KFloat \<Rightarrow> Float64Type | KBool \<Rightarrow> BoolType | KDuration \<Rightarrow> DurationType
                  | _ \<Rightarrow> - 1),
                DefaultValue = v, Description = description\<rparr>)
   \<and> (kind_of v \<notin> {KString, KStringList, KInt, KFloat, KBool, KDuration} \<longrightarrow>
      Register registered name v description = (Some InvalidType, registered))"
  by (cases v) (simp_all add: Register_def Default_def AList.update_conv')

theorem Register_then_Default_witness:
  "Default (snd (Register [] ''VERBOSITY'' (VInt (- 1)) ''Set the debug logging verbosity''))
      ''VERBOSITY''
     = Some \<lparr>Var = ''VERBOSITY'', DataType = IntType, DefaultValue = VInt (- 1),
             Description = ''Set the debug logging verbosity''\<rparr>
   \<and> Register [] ''PORTS'' (VOther ''[]int'') ''ports'' = (Some InvalidType, [])"
  using Register_then_Default [of "VInt (- 1)" "[]" "''VERBOSITY''" "''Set the debug logging verbosity''"]
    Register_then_Default [of "VOther ''[]int''" "[]" "''PORTS''" "''ports''"]
  by simp

text \<open>
  The claim as stated fails at the kind \<open>int64\<close>, which it lists as supported:
  \<open>Register\<close> panics on an \<open>int64\<close> default and \<open>Default\<close> finds nothing afterwards.
\<close>

theorem Register_int64_counterexample:
  "kind_of (VInt64 5) = KInt64
   \<and> Register [] ''LIMIT'' (VInt64 5) ''limit'' = (Some InvalidType, [])
   \<and> Default (snd (Register [] ''LIMIT'' (VInt64 5) ''limit'')) ''LIMIT'' = None"
  by (simp add: Register_def Default_def)

subsection \<open>The rules for one line\<close>

text \<open>
  For a line the scanner delivers, with the lines after it: the text from the first \<open>#\<close>
  on is discarded (all of it when \<open>#\<close> comes first); a line that is blank after that and
  after trimming is skipped; otherwise the content is cut at its first \<open>=\<close> into key and
  value, both trimmed of surrounding white space. Processing stops with an error carrying
  the file name and the line number when there is no \<open>=\<close>, when the trimmed key or value
  is empty, and when the host refuses the assignment, which it does for a NUL byte.
  Otherwise the variable key is set to value, overwriting what it held, and processing goes
  on with the next line.
\<close>

lemma process_loop_line_rules:
  "process_loop filename lineNo environ (line # rest) =
     (let content = takeWhile (\<lambda>c. c \<noteq> CHR ''#'') line in
      if TrimSpace content = [] then process_loop filename (lineNo + 1) environ rest
      else if CHR ''='' \<notin> set content then
        (Some (Errorf (''unable to parse line '' @ filename @ '':'' @ Itoa (lineNo + 1))), environ)
      else
        (let key = TrimSpace (takeWhile (\<lambda>c. c \<noteq> CHR ''='') content);
             val = TrimSpace (tl (dropWhile (\<lambda>c. c \<noteq> CHR ''='') content))
         in if key = [] \<or> val = [] then
              (Some (Errorf (''invalid environment variable assignment '' @ filename @ '':''
                             @ Itoa (lineNo + 1))), environ)
            else if CHR 0x00 \<in> set key \<or> CHR 0x00 \<in> set val then
              (Some (Errorf (''failed to assign '' @ key @ '' value '' @ val @ '' (''
                             @ filename @ '':'' @ Itoa (lineNo + 1) @ '')'')), environ)
            else process_loop filename (lineNo + 1) (environ(key \<mapsto> val)) rest))"
  unfolding process_loop.simps process_line_cases Let_def by simp

lemma process_loop_line_rules_example:
  "process_loop ''.env'' (- 1) [''DB_MAX'' \<mapsto> ''6'']
       ['' DB_MAX = 8 # more'', ''  # only a comment'']
     = (None, [''DB_MAX'' \<mapsto> ''8''])"
  using process_loop_line_rules [of "''.env''" "- 1" "[''DB_MAX'' \<mapsto> ''6'']"
      "'' DB_MAX = 8 # more''" "[''  # only a comment'']"]
    process_loop_line_rules [of "''.env''" 0 "[''DB_MAX'' \<mapsto> ''8'']" "''  # only a comment''" "[]"]
  by (simp add: TrimSpace_examples)

text \<open>
  Claim C5. The claim gives these rules for every input line, among them that a line with
  no \<open>=\<close> fails with a line-numbered error. The code applies them to the lines the scanner
  delivers only: at a line of 65536 bytes or more the scanner gives up, the loop ends, the
  scanner's error is never looked at and \<open>process\<close> returns no error. For the file with
  the lines \<open>A=1\<close>, 65536 bytes \<open>x\<close> (no \<open>=\<close>) and \<open>B=2\<close>, \<open>process\<close> and \<open>Load\<close>
  return no error, \<open>A\<close> is set and \<open>B\<close> is not; with one byte less in the second line
  the error for line 1 is returned.
\<close>

theorem process_drops_long_line:
  "process [''.env'' \<mapsto> Regular (''A=1\<newline>'' @ replicate 65536 CHR ''x'' @ ''\<newline>B=2'')]
       Map.empty ''.env''
     = (None, [''A'' \<mapsto> ''1''])
   \<and> Load [''.env'' \<mapsto> Regular (''A=1\<newline>'' @ replicate 65536 CHR ''x'' @ ''\<newline>B=2'')]
       Map.empty
     = (None, [''A'' \<mapsto> ''1''])
   \<and> CHR ''='' \<notin> set (replicate 65536 CHR ''x'')
   \<and> process [''.env'' \<mapsto> Regular (''A=1\<newline>'' @ replicate 65535 CHR ''x'' @ ''\<newline>B=2'')]
       Map.empty ''.env''
     = (Some (Errorf ''unable to parse line .env:1''), [''A'' \<mapsto> ''1''])"
proof -
  have long: "process_loop ''.env'' (- 1) Map.empty [''A=1''] = (None, [''A'' \<mapsto> ''1''])"
    by (simp add: example_good_line)
  have xs: "process_line ''.env'' 1 [''A'' \<mapsto> ''1''] (replicate 65535 CHR ''x'')
      = Inl (Errorf ''unable to parse line .env:1'')"
    by (simp add: process_line_cases TrimSpace_xs example_evaluations)
  have short: "process_loop ''.env'' (- 1) Map.empty [''A=1'', replicate 65535 CHR ''x'', ''B=2'']
      = (Some (Errorf ''unable to parse line .env:1''), [''A'' \<mapsto> ''1''])"
    by (simp add: example_good_line xs)
  have p1: "process [''.env'' \<mapsto> Regular (''A=1\<newline>'' @ replicate 65536 CHR ''x'' @ ''\<newline>B=2'')]
       Map.empty ''.env'' = (None, [''A'' \<mapsto> ''1''])"
    unfolding process_def using long_line_scan [of 65536] long by simp
  have p2: "process [''.env'' \<mapsto> Regular (''A=1\<newline>'' @ replicate 65535 CHR ''x'' @ ''\<newline>B=2'')]
       Map.empty ''.env'' = (Some (Errorf ''unable to parse line .env:1''), [''A'' \<mapsto> ''1''])"
    unfolding process_def using long_line_scan [of 65535] short by simp
  have l: "Load [''.env'' \<mapsto> Regular (''A=1\<newline>'' @ replicate 65536 CHR ''x'' @ ''\<newline>B=2'')]
       Map.empty = (None, [''A'' \<mapsto> ''1''])"
    using p1 by (simp add: Load_def Load_user_def UserHomeDir_def Let_def exists_file_def)
  from p1 p2 l show ?thesis by simp
qed

subsection \<open>Load: two files, home first\<close>

text \<open>
  Claim C4. \<open>Load\<close> looks at no more than two paths, the \<open>.env\<close> of the home directory
  and the \<open>.env\<close> of the working directory, and its outcome depends on the file system at
  those paths only. The home file is processed first and the local file starts from the
  environment the home file left. A file that is absent is passed over: with neither file
  present \<open>Load\<close> returns no error and leaves the environment alone. When processing the
  home file fails \<open>Load\<close> returns \<open>ErrBadUserFile\<close>, when processing the local file fails
  it returns \<open>ErrBadLocalFile\<close>, and the two differ, also in their messages.
  \<open>home_file\<close> is the path of the home file when the home directory is known and the file
  exists.
\<close>

theorem Load_home_then_local:
  assumes "home_file =
    (case UserHomeDir environ of
       Some home \<Rightarrow>
         (if exists_file files (path_Join [path_Clean home, ''.env''])
          then Some (path_Join [path_Clean home, ''.env'']) else None)
     | None \<Rightarrow> None)"
  shows
   "(home_file = None \<and> \<not> exists_file files ''.env'' \<longrightarrow> Load files environ = (None, environ))
  \<and> (home_file = Some userEnv \<and> process files environ userEnv = (Some err, environ_h) \<longrightarrow>
        Load files environ = (Some ErrBadUserFile, environ_h))
  \<and> ((home_file = None \<and> environ_h = environ)
       \<or> (home_file = Some userEnv \<and> process files environ userEnv = (None, environ_h)) \<longrightarrow>
        (\<not> exists_file files ''.env'' \<longrightarrow> Load files environ = (None, environ_h))
      \<and> (exists_file files ''.env'' \<and> process files environ_h ''.env'' = (Some err, environ_l) \<longrightarrow>
            Load files environ = (Some ErrBadLocalFile, environ_l))
      \<and> (exists_file files ''.env'' \<and> process files environ_h ''.env'' = (None, environ_l) \<longrightarrow>
            Load files environ = (None, environ_l)))
  \<and> ErrBadUserFile \<noteq> ErrBadLocalFile
  \<and> error_text ErrBadUserFile \<noteq> error_text ErrBadLocalFile
  \<and> length (Load_paths environ) \<le> 2
  \<and> ((\<forall>p \<in> set (Load_paths environ). files' p = files p) \<longrightarrow>
        Load files' environ = Load files environ)"
proof -
  have user: "Load_user files environ =
      (case home_file of
         None \<Rightarrow> (None, environ)
       | Some userEnv \<Rightarrow>
           (case process files environ userEnv of
              (Some err, environ_h) \<Rightarrow> (Some ErrBadUserFile, environ_h)
            | (None, environ_h) \<Rightarrow> (None, environ_h)))"
    unfolding assms Load_user_def Let_def by (simp split: option.split)
  have len: "length (Load_paths environ) \<le> 2"
    by (simp add: Load_paths_def split: option.split)
  have a: "home_file = None \<and> \<not> exists_file files ''.env'' \<longrightarrow> Load files environ = (None, environ)"
    unfolding Load_def Let_def user by simp
  have b: "home_file = Some userEnv \<and> process files environ userEnv = (Some err, environ_h) \<longrightarrow>
        Load files environ = (Some ErrBadUserFile, environ_h)"
    unfolding Load_def Let_def user by simp
  have c: "(home_file = None \<and> environ_h = environ)
       \<or> (home_file = Some userEnv \<and> process files environ userEnv = (None, environ_h)) \<longrightarrow>
        (\<not> exists_file files ''.env'' \<longrightarrow> Load files environ = (None, environ_h))
      \<and> (exists_file files ''.env'' \<and> process files environ_h ''.env'' = (Some err, environ_l) \<longrightarrow>
            Load files environ = (Some ErrBadLocalFile, environ_l))
      \<and> (exists_file files ''.env'' \<and> process files environ_h ''.env'' = (None, environ_l) \<longrightarrow>
            Load files environ = (None, environ_l))"
    unfolding Load_def Let_def user by auto
  have d: "error_text ErrBadUserFile \<noteq> error_text ErrBadLocalFile" by simp
  have e: "(\<forall>p \<in> set (Load_paths environ). files' p = files p) \<longrightarrow>
        Load files' environ = Load files environ"
    using Load_only_paths [of environ files' files] by blast
  have f: "ErrBadUserFile \<noteq> ErrBadLocalFile" by simp
  show ?thesis
    by (intro conjI) (rule a b c d e f len)+
qed

theorem Load_home_then_local_witness:
  "Load Map.empty [''HOME'' \<mapsto> ''/home/u''] = (None, [''HOME'' \<mapsto> ''/home/u''])
   \<and> Load [''/home/u/.env'' \<mapsto> Regular ''BAD'', ''.env'' \<mapsto> Regular ''A=1'']
        [''HOME'' \<mapsto> ''/home/u'']
      = (Some ErrBadUserFile, [''HOME'' \<mapsto> ''/home/u''])
   \<and> Load [''.env'' \<mapsto> Regular ''BAD''] [''HOME'' \<mapsto> ''/home/u'']
      = (Some ErrBadLocalFile, [''HOME'' \<mapsto> ''/home/u''])"
  using
    Load_home_then_local [where home_file = None and environ = "[''HOME'' \<mapsto> ''/home/u'']"
      and files = Map.empty]
    Load_home_then_local [where home_file = "Some ''/home/u/.env''"
      and environ = "[''HOME'' \<mapsto> ''/home/u'']"
      and files = "[''/home/u/.env'' \<mapsto> Regular ''BAD'', ''.env'' \<mapsto> Regular ''A=1'']"
      and userEnv = "''/home/u/.env''" and err = "Errorf ''unable to parse line /home/u/.env:0''"
      and environ_h = "[''HOME'' \<mapsto> ''/home/u'']"]
    Load_home_then_local [where home_file = None and environ = "[''HOME'' \<mapsto> ''/home/u'']"
      and files = "[''.env'' \<mapsto> Regular ''BAD'']" and environ_h = "[''HOME'' \<mapsto> ''/home/u'']"
      and err = "Errorf ''unable to parse line .env:0''" and environ_l = "[''HOME'' \<mapsto> ''/home/u'']"]
  by (simp add: UserHomeDir_def exists_file_def process_def example_evaluations example_lines example_bad_line)

subsection \<open>No rollback\<close>

text \<open>
  Claim C6. When the lines \<open>pre\<close> of a file have been processed without error, leaving the
  environment \<open>environ_kept\<close>, and the next line fails, \<open>process\<close> returns that error
  together with \<open>environ_kept\<close>: every assignment of the earlier lines stays. \<open>Load\<close>
  hands the same environment back with its sentinel, for the home file and, after the home
  step (which turned \<open>environ_start\<close> into \<open>environ\<close>), for the local file; so what an
  earlier file assigned stays as well.
\<close>

theorem failure_keeps_earlier_assignments:
  assumes "files filename = Some (Regular data)"
    and "ScanLines data = pre @ bad # rest"
    and "process_loop filename (- 1) environ pre = (None, environ_kept)"
    and "process_line filename (int (length pre)) environ_kept bad = Inl err"
  shows "process files environ filename = (Some err, environ_kept)
    \<and> (UserHomeDir environ = Some home \<and> filename = path_Join [path_Clean home, ''.env'']
          \<longrightarrow> Load files environ = (Some ErrBadUserFile, environ_kept))
    \<and> (Load_user files environ_start = (None, environ) \<and> filename = ''.env''
          \<longrightarrow> Load files environ_start = (Some ErrBadLocalFile, environ_kept))"
proof -
  have "process_loop filename (- 1) environ (pre @ bad # rest) = (Some err, environ_kept)"
    using assms(3,4) by (simp add: process_loop_append)
  with assms(1,2) have p: "process files environ filename = (Some err, environ_kept)"
    by (simp add: process_def)
  have ex: "exists_file files filename"
    using assms(1) by (simp add: exists_file_def)
  have u: "UserHomeDir environ = Some home \<and> filename = path_Join [path_Clean home, ''.env'']
          \<longrightarrow> Load files environ = (Some ErrBadUserFile, environ_kept)"
  proof (intro impI, elim conjE)
    assume h: "UserHomeDir environ = Some home"
      and f: "filename = path_Join [path_Clean home, ''.env'']"
    from p ex have "Load_user files environ = (Some ErrBadUserFile, environ_kept)"
      unfolding f Load_user_def Let_def h by simp
    then show "Load files environ = (Some ErrBadUserFile, environ_kept)"
      by (simp add: Load_def)
  qed
  have l: "Load_user files environ_start = (None, environ) \<and> filename = ''.env''
          \<longrightarrow> Load files environ_start = (Some ErrBadLocalFile, environ_kept)"
  proof (intro impI, elim conjE)
    assume h: "Load_user files environ_start = (None, environ)" and f: "filename = ''.env''"
    from p ex show "Load files environ_start = (Some ErrBadLocalFile, environ_kept)"
      unfolding f Load_def Let_def h by simp
  qed
  from p u l show ?thesis by blast
qed

theorem failure_keeps_earlier_assignments_witness:
  "Load [''.env'' \<mapsto> Regular ''A=1\<newline>BAD\<newline>C=3''] Map.empty
     = (Some ErrBadLocalFile, [''A'' \<mapsto> ''1''])"
  using failure_keeps_earlier_assignments [where filename = "''.env''"
      and files = "[''.env'' \<mapsto> Regular ''A=1\<newline>BAD\<newline>C=3'']"
      and data = "''A=1\<newline>BAD\<newline>C=3''"
      and pre = "[''A=1'']" and bad = "''BAD''" and rest = "[''C=3'']"
      and environ = Map.empty and environ_kept = "[''A'' \<mapsto> ''1'']"
      and err = "Errorf ''unable to parse line .env:1''" and environ_start = Map.empty]
  by (simp add: example_lines example_evaluations example_bad_line example_good_line Load_user_def UserHomeDir_def)

subsection \<open>A refused assignment\<close>

text \<open>
  Claim C8, as amended. When a file's lines \<open>pre\<close> have been processed and the host
  refuses the assignment of \<open>key\<close> to \<open>val\<close> that the next line asks for, \<open>process\<close>
  stops with an error whose message holds the key, the value, the file name and the number
  of the line, counted from 0 (the number of lines before it). \<open>Load\<close> does not pass that
  error on: it returns \<open>ErrBadUserFile\<close> when the file is the home file and
  \<open>ErrBadLocalFile\<close> when it is the local file, sentinels whose fixed messages tell the
  caller which file failed and nothing else.
\<close>

theorem setenv_failure_error:
  assumes "files filename = Some (Regular data)"
    and "ScanLines data = pre @ line # rest"
    and "process_loop filename (- 1) environ pre = (None, environ_kept)"
    and "content = takeWhile (\<lambda>c. c \<noteq> CHR ''#'') line"
    and "TrimSpace content \<noteq> []" and "CHR ''='' \<in> set content"
    and "key = TrimSpace (takeWhile (\<lambda>c. c \<noteq> CHR ''='') content)"
    and "val = TrimSpace (tl (dropWhile (\<lambda>c. c \<noteq> CHR ''='') content))"
    and "key \<noteq> []" and "val \<noteq> []"
    and "Setenv environ_kept key val = None"
    and "msg = ''failed to assign '' @ key @ '' value '' @ val @ '' ('' @ filename @ '':''
               @ Itoa (int (length pre)) @ '')''"
  shows "process files environ filename = (Some (Errorf msg), environ_kept)
    \<and> sublist key msg \<and> sublist val msg \<and> sublist filename msg
    \<and> sublist (Itoa (int (length pre))) msg
    \<and> (UserHomeDir environ = Some home \<and> filename = path_Join [path_Clean home, ''.env'']
          \<longrightarrow> Load files environ = (Some ErrBadUserFile, environ_kept))
    \<and> (Load_user files environ_start = (None, environ) \<and> filename = ''.env''
          \<longrightarrow> Load files environ_start = (Some ErrBadLocalFile, environ_kept))
    \<and> error_text ErrBadUserFile = ''unable to parse $HOME/.env file''
    \<and> error_text ErrBadLocalFile = ''unable to parse .env file''"
proof -
  have nul: "CHR 0x00 \<in> set key \<or> CHR 0x00 \<in> set val"
    using Setenv_trimmed_key [OF assms(7,9), of environ_kept val] assms(11)
    by (simp split: if_splits)
  have pl: "process_line filename (int (length pre)) environ_kept line = Inl (Errorf msg)"
    unfolding process_line_cases Let_def assms(4) [symmetric] assms(7) [symmetric]
      assms(8) [symmetric] assms(12)
    using assms(5,6,9,10) nul by simp
  have p: "process files environ filename = (Some (Errorf msg), environ_kept)"
    using assms(1,2,3) pl by (rule process_stops_at)
  have k: "sublist key msg"
    unfolding assms(12) by (rule sublist_appendI)
  have v: "sublist val msg"
    unfolding assms(12) using sublist_appendI [of val "''failed to assign '' @ key @ '' value ''"]
    by simp
  have f: "sublist filename msg"
    unfolding assms(12)
    using sublist_appendI [of filename "''failed to assign '' @ key @ '' value '' @ val @ '' (''"]
    by simp
  have n: "sublist (Itoa (int (length pre))) msg"
    unfolding assms(12)
    using sublist_appendI [of "Itoa (int (length pre))"
        "''failed to assign '' @ key @ '' value '' @ val @ '' ('' @ filename @ '':''" "'')''"]
    by simp
  have u: "UserHomeDir environ = Some home \<and> filename = path_Join [path_Clean home, ''.env'']
          \<longrightarrow> Load files environ = (Some ErrBadUserFile, environ_kept)"
    using Load_home_file_fails [OF p assms(1)] by blast
  have l: "Load_user files environ_start = (None, environ) \<and> filename = ''.env''
          \<longrightarrow> Load files environ_start = (Some ErrBadLocalFile, environ_kept)"
    using Load_local_file_fails [of files environ _ environ_kept data environ_start] p assms(1)
    by blast
  from p k v f n u l show ?thesis by simp
qed

theorem setenv_failure_error_witness:
  "process
       [''/home/u/.env'' \<mapsto> Regular [CHR ''A'', CHR ''='', CHR ''1'', CHR 0x0A, CHR ''K'', CHR ''E'',
          CHR ''Y'', CHR ''='', CHR ''a'', CHR 0x00]]
       [''HOME'' \<mapsto> ''/home/u''] ''/home/u/.env''
     = (Some (Errorf (''failed to assign KEY value '' @ [CHR ''a'', CHR 0x00] @ '' (/home/u/.env:1)'')),
        [''HOME'' \<mapsto> ''/home/u'', ''A'' \<mapsto> ''1''])
   \<and> Load
       [''/home/u/.env'' \<mapsto> Regular [CHR ''A'', CHR ''='', CHR ''1'', CHR 0x0A, CHR ''K'', CHR ''E'',
          CHR ''Y'', CHR ''='', CHR ''a'', CHR 0x00]]
       [''HOME'' \<mapsto> ''/home/u'']
     = (Some ErrBadUserFile, [''HOME'' \<mapsto> ''/home/u'', ''A'' \<mapsto> ''1''])
   \<and> Load
       [''.env'' \<mapsto> Regular [CHR ''A'', CHR ''='', CHR ''1'', CHR 0x0A, CHR ''K'', CHR ''E'',
          CHR ''Y'', CHR ''='', CHR ''a'', CHR 0x00]]
       Map.empty
     = (Some ErrBadLocalFile, [''A'' \<mapsto> ''1''])"
  using
    setenv_failure_error [where filename = "''/home/u/.env''"
      and files = "[''/home/u/.env'' \<mapsto> Regular [CHR ''A'', CHR ''='', CHR ''1'', CHR 0x0A,
          CHR ''K'', CHR ''E'', CHR ''Y'', CHR ''='', CHR ''a'', CHR 0x00]]"
      and data = "[CHR ''A'', CHR ''='', CHR ''1'', CHR 0x0A, CHR ''K'', CHR ''E'', CHR ''Y'',
          CHR ''='', CHR ''a'', CHR 0x00]"
      and pre = "[''A=1'']"
      and line = "[CHR ''K'', CHR ''E'', CHR ''Y'', CHR ''='', CHR ''a'', CHR 0x00]"
      and rest = "[]"
      and content = "[CHR ''K'', CHR ''E'', CHR ''Y'', CHR ''='', CHR ''a'', CHR 0x00]"
      and key = "''KEY''" and val = "[CHR ''a'', CHR 0x00]"
      and environ = "[''HOME'' \<mapsto> ''/home/u'']"
      and environ_kept = "[''HOME'' \<mapsto> ''/home/u'', ''A'' \<mapsto> ''1'']"
      and msg = "''failed to assign KEY value '' @ [CHR ''a'', CHR 0x00] @ '' (/home/u/.env:1)''"
      and home = "''/home/u''"]
    setenv_failure_error [where filename = "''.env''"
      and files = "[''.env'' \<mapsto> Regular [CHR ''A'', CHR ''='', CHR ''1'', CHR 0x0A,
          CHR ''K'', CHR ''E'', CHR ''Y'', CHR ''='', CHR ''a'', CHR 0x00]]"
      and data = "[CHR ''A'', CHR ''='', CHR ''1'', CHR 0x0A, CHR ''K'', CHR ''E'', CHR ''Y'',
          CHR ''='', CHR ''a'', CHR 0x00]"
      and pre = "[''A=1'']"
      and line = "[CHR ''K'', CHR ''E'', CHR ''Y'', CHR ''='', CHR ''a'', CHR 0x00]"
      and rest = "[]"
      and content = "[CHR ''K'', CHR ''E'', CHR ''Y'', CHR ''='', CHR ''a'', CHR 0x00]"
      and key = "''KEY''" and val = "[CHR ''a'', CHR 0x00]"
      and environ = Map.empty
      and environ_kept = "[''A'' \<mapsto> ''1'']"
      and msg = "''failed to assign KEY value '' @ [CHR ''a'', CHR 0x00] @ '' (.env:1)''"
      and environ_start = Map.empty]
  by (simp add: example_nul example_nul_file example_evaluations example_good_line Setenv_def
      UserHomeDir_def Load_user_def)

text \<open>
  The claim as stated fails: for a home file whose only line assigns a value with a NUL
  byte, the host refuses, \<open>process\<close> names \<open>KEY\<close>, the value and line 0, and \<open>Load\<close>
  returns \<open>ErrBadUserFile\<close>, whose message holds none of them.
\<close>

theorem Load_setenv_failure_counterexample:
  "Setenv [''HOME'' \<mapsto> ''/home/u''] ''KEY'' [CHR ''a'', CHR 0x00] = None
   \<and> fst (process [''/home/u/.env'' \<mapsto> Regular (''KEY=a'' @ [CHR 0x00])]
          [''HOME'' \<mapsto> ''/home/u''] ''/home/u/.env'')
       = Some (Errorf (''failed to assign KEY value '' @ [CHR ''a'', CHR 0x00] @ '' (/home/u/.env:0)''))
   \<and> fst (Load [''/home/u/.env'' \<mapsto> Regular (''KEY=a'' @ [CHR 0x00])] [''HOME'' \<mapsto> ''/home/u''])
       = Some ErrBadUserFile
   \<and> \<not> sublist ''KEY'' (error_text ErrBadUserFile)
   \<and> \<not> sublist [CHR ''a'', CHR 0x00] (error_text ErrBadUserFile)
   \<and> \<not> sublist (Itoa 0) (error_text ErrBadUserFile)"
  by (simp add: Load_def Load_user_def UserHomeDir_def exists_file_def process_def
      process_line_cases example_nul example_nul_lines example_evaluations Setenv_def)

subsection \<open>Help\<close>

text \<open>
  Claim C9. The claim says that \<open>Help\<close> never panics. For the empty registry it
  prints nothing and does not panic, but for others the code does panic: when the name
  column, the default column and the 18 columns of spacing leave fewer than 3 columns, and
  a description is longer than what they leave, \<open>pad\<close> slices that description at a
  negative bound. This happens, whatever
  \<open>%v\<close> prints, for a name of 60 bytes under the fallback width of 80, and for the first
  registration of the README on a terminal 20 columns wide, where the name and the type
  are printed before the panic.
\<close>

theorem Help_panics_when_narrow:
  "Help sprint termSize [] = (None, [])
   \<and> fst (Help sprint None
          (snd (Register [] (replicate 60 CHR ''K'') (VString ''x'') ''0123456789'')))
     = Some SliceBounds
   \<and> Help sprint (Some 20)
          (snd (Register [] ''VERBOSITY'' (VInt (- 1)) ''Set the debug logging verbosity''))
     = (Some SliceBounds, ''VERBOSITY  integer       '')"
  by (simp add: Help_def Register_def pad_def typeNames_def StringType_def IntType_def
      StringSliceType_def Let_def eval_nat_numeral)

end
